theory Spec2Isabelle
  imports Main "HOL-Library.Sublist"
begin

section \<open>JavaScript strings\<close>

text \<open>
  A JavaScript string is a sequence of UTF-16 code units, and \<open>length\<close>, \<open>substring\<close>,
  \<open>includes\<close> and the regular expressions of the program (none has the \<open>u\<close> flag) all
  work on code units. A code unit is a natural number here; \<open>js\<close> embeds an ASCII literal.
\<close>

type_synonym jsstring = "nat list"

definition js :: "string \<Rightarrow> jsstring" where
  "js s = map of_char s"

text \<open>Template interpolation \<open>${number}\<close> of a non-negative integer: its decimal digits.\<close>

fun numberToString :: "nat \<Rightarrow> jsstring" where
  "numberToString n =
     (if n < 10 then [48 + n] else numberToString (n div 10) @ [48 + n mod 10])"

declare numberToString.simps [simp del]

text \<open>
  \<open>String.prototype.substring(a, b)\<close>: both indices are clamped to \<open>[0, length]\<close> and swapped
  when \<open>a > b\<close>; it never fails.
\<close>

definition substring :: "jsstring \<Rightarrow> int \<Rightarrow> int \<Rightarrow> jsstring" where
  "substring s a b =
     (let n = int (length s);
          a' = min (max a 0) n;
          b' = min (max b 0) n
      in take (nat (max a' b' - min a' b')) (drop (nat (min a' b')) s))"

text \<open>\<open>s.includes(w)\<close> is \<^const>\<open>sublist\<close> \<open>w s\<close>: \<open>w\<close> occurs in \<open>s\<close> as a contiguous run.\<close>

definition js_includes :: "jsstring \<Rightarrow> jsstring \<Rightarrow> bool" where
  "js_includes s w = sublist w s"

section \<open>Regular expressions\<close>

text \<open>
  Every regular expression of the program is a sequence of single-character items, each
  optionally quantified, with capture groups that are not nested and not quantified. The
  matcher below is the backtracking matcher of ECMAScript restricted to such sequences:
  a greedy quantifier tries the longest repetition first, a lazy one the shortest, and the
  first alternative for which the rest of the pattern matches wins.
\<close>

datatype item =
    Chr "nat \<Rightarrow> bool"
  | Opt "nat \<Rightarrow> bool"
  | Star "nat \<Rightarrow> bool"
  | Plus "nat \<Rightarrow> bool"
  | Lazy "nat \<Rightarrow> bool"
  | Open
  | Close

text \<open>The groups closed so far, and the text of the group that is open, if one is.\<close>

type_synonym groups = "jsstring list \<times> jsstring option"

fun capture :: "nat \<Rightarrow> groups \<Rightarrow> groups" where
  "capture c (caps, None) = (caps, None)"
| "capture c (caps, Some b) = (caps, Some (b @ [c]))"

fun rmatch :: "item list \<Rightarrow> groups \<Rightarrow> jsstring \<Rightarrow> (jsstring list \<times> jsstring) option" where
  "rmatch [] g s = Some (fst g, s)"
| "rmatch (Chr P # r) g [] = None"
| "rmatch (Chr P # r) g (c # cs) = (if P c then rmatch r (capture c g) cs else None)"
| "rmatch (Opt P # r) g [] = rmatch r g []"
| "rmatch (Opt P # r) g (c # cs) =
     (if P c
      then (case rmatch r (capture c g) cs of
              Some x \<Rightarrow> Some x
            | None \<Rightarrow> rmatch r g (c # cs))
      else rmatch r g (c # cs))"
| "rmatch (Star P # r) g [] = rmatch r g []"
| "rmatch (Star P # r) g (c # cs) =
     (if P c
      then (case rmatch (Star P # r) (capture c g) cs of
              Some x \<Rightarrow> Some x
            | None \<Rightarrow> rmatch r g (c # cs))
      else rmatch r g (c # cs))"
| "rmatch (Plus P # r) g [] = None"
| "rmatch (Plus P # r) g (c # cs) =
     (if P c then rmatch (Star P # r) (capture c g) cs else None)"
| "rmatch (Lazy P # r) g [] = rmatch r g []"
| "rmatch (Lazy P # r) g (c # cs) =
     (case rmatch r g (c # cs) of
        Some x \<Rightarrow> Some x
      | None \<Rightarrow> if P c then rmatch (Lazy P # r) (capture c g) cs else None)"
| "rmatch (Open # r) g s = rmatch r (fst g, Some []) s"
| "rmatch (Close # r) g s =
     rmatch r (case snd g of None \<Rightarrow> g | Some b \<Rightarrow> (fst g @ [b], None)) s"

text \<open>The match of a pattern at the start of \<open>s\<close>: its groups and the text after it.\<close>

definition match_here :: "item list \<Rightarrow> jsstring \<Rightarrow> (jsstring list \<times> jsstring) option" where
  "match_here re s = rmatch re ([], None) s"

text \<open>Capture group \<open>n + 1\<close> of a match (\<open>$1\<close> is \<open>capture_group caps 0\<close>).\<close>

definition capture_group :: "jsstring list \<Rightarrow> nat \<Rightarrow> jsstring" where
  "capture_group caps n = (if n < length caps then caps ! n else [])"

text \<open>
  The leftmost match at or after the start of \<open>s\<close>, as \<open>RegExp.prototype.exec\<close> finds it:
  the number of code units skipped, the groups, and the text after the match.
\<close>

fun search :: "item list \<Rightarrow> jsstring \<Rightarrow> (nat \<times> jsstring list \<times> jsstring) option" where
  "search re [] =
     (case match_here re [] of None \<Rightarrow> None | Some (caps, rest) \<Rightarrow> Some (0, caps, rest))"
| "search re (c # cs) =
     (case match_here re (c # cs) of
        Some (caps, rest) \<Rightarrow> Some (0, caps, rest)
      | None \<Rightarrow>
          (case search re cs of
             None \<Rightarrow> None
           | Some (i, caps, rest) \<Rightarrow> Some (Suc i, caps, rest)))"

text \<open>
  \<open>s.replace(re, f)\<close> for a pattern with the \<open>g\<close> flag: every match, left to right and
  not overlapping, is replaced by \<open>f\<close> of the matched text and its groups. After an empty
  match the scan moves on by one code unit.
\<close>

function replace_g ::
  "item list \<Rightarrow> (jsstring \<Rightarrow> jsstring list \<Rightarrow> jsstring) \<Rightarrow> jsstring \<Rightarrow> jsstring" where
  "replace_g re f [] =
     (case match_here re [] of None \<Rightarrow> [] | Some (caps, rest) \<Rightarrow> f [] caps)"
| "replace_g re f (c # cs) =
     (case match_here re (c # cs) of
        None \<Rightarrow> c # replace_g re f cs
      | Some (caps, rest) \<Rightarrow>
          if length rest < length (c # cs)
          then f (take (length (c # cs) - length rest) (c # cs)) caps @ replace_g re f rest
          else f [] caps @ c # replace_g re f cs)"
  by pat_completeness auto
termination
  by (relation "measure (\<lambda>(re, f, s). length s)") auto

text \<open>Character classes and literals.\<close>

definition is_char :: "char \<Rightarrow> nat \<Rightarrow> bool" where
  "is_char c x = (x = of_char c)"

definition lit :: "string \<Rightarrow> item list" where
  "lit s = map (\<lambda>c. Chr (is_char c)) s"

text \<open>\<open>.\<close> matches every code unit but the four line terminators.\<close>

definition dot :: "nat \<Rightarrow> bool" where
  "dot c = (c \<noteq> 10 \<and> c \<noteq> 13 \<and> c \<noteq> 0x2028 \<and> c \<noteq> 0x2029)"

text \<open>\<open>\s\<close>: the white space and line terminator code points of ECMAScript.\<close>

definition white_space :: "nat \<Rightarrow> bool" where
  "white_space c =
     (c \<in> {9, 10, 11, 12, 13, 32, 0xA0, 0x1680, 0x2028, 0x2029, 0x202F, 0x205F, 0x3000, 0xFEFF}
      \<or> (0x2000 \<le> c \<and> c \<le> 0x200A))"

definition digit :: "nat \<Rightarrow> bool" where
  "digit c = (48 \<le> c \<and> c \<le> 57)"

text \<open>\<open>[a-zA-Z0-9-]\<close>\<close>

definition alnum_dash :: "nat \<Rightarrow> bool" where
  "alnum_dash c = ((97 \<le> c \<and> c \<le> 122) \<or> (65 \<le> c \<and> c \<le> 90) \<or> (48 \<le> c \<and> c \<le> 57) \<or> c = 45)"

text \<open>
  With the \<open>i\<close> flag (and no \<open>u\<close> flag) an ASCII letter of the pattern matches exactly
  its two ASCII cases: canonicalisation never maps a code unit above 127 to one below 128.
\<close>

definition upper :: "nat \<Rightarrow> nat" where
  "upper c = (if 97 \<le> c \<and> c \<le> 122 then c - 32 else c)"

definition lit_i :: "string \<Rightarrow> item list" where
  "lit_i s = map (\<lambda>c. Chr (\<lambda>x. upper x = upper (of_char c))) s"

section \<open>Configuration and data\<close>

text \<open>
  The environment variables read at start-up, and the identities the two platforms give
  the program: the logged-in bot (\<open>discord.user\<close>), the guild of the forum channel and
  the GitHub account of the token.
\<close>

record config =
  FORUM_CHANNEL_ID :: jsstring
  GITHUB_REPO :: jsstring
  GITHUB_OWNER :: jsstring
  CATEGORY_NAME :: jsstring
  DRY_RUN :: bool
  discord_user_id :: jsstring
  discord_user_name :: jsstring
  discord_guild_id :: jsstring
  github_login :: jsstring

text \<open>
  \<open>GithubDiscussion\<close> of \<open>github.ts\<close>. \<open>d_category_name\<close> is \<open>discussion.category?.name\<close>,
  which only a webhook payload carries: the listing query does not ask for it.
\<close>

record GithubDiscussion =
  d_id :: jsstring
  d_number :: nat
  d_title :: jsstring
  d_body :: jsstring
  d_author_login :: jsstring
  d_category_name :: "jsstring option"

record GithubComment =
  c_id :: jsstring
  c_body :: jsstring
  c_author_login :: jsstring

text \<open>\<open>ThreadMessage\<close> of \<open>discord.ts\<close>.\<close>

record ThreadMessage =
  m_id :: jsstring
  m_message :: jsstring
  m_user :: jsstring
  m_isAuthor :: bool
  m_fromGithub :: bool

text \<open>
  What the program reads of a discord.js thread channel and of a message. A message's
  channel is a thread or another kind of channel (\<open>isThread()\<close>).
\<close>

record ThreadChannel =
  t_id :: jsstring
  t_name :: jsstring
  t_parentId :: "jsstring option"
  t_guild_id :: jsstring

datatype channel = Thread ThreadChannel | OtherChannel jsstring

record Message =
  msg_id :: jsstring
  msg_content :: jsstring
  msg_author_id :: jsstring
  msg_author_username :: jsstring
  msg_author_bot :: bool
  msg_channel :: channel

section \<open>Message rendering\<close>

definition newline :: jsstring where
  "newline = [10]"

text \<open>U+1F4AC (speech balloon), a surrogate pair.\<close>

definition speech_balloon :: jsstring where
  "speech_balloon = [0xD83D, 0xDCAC]"

text \<open>
  The same four UTF-8 bytes as \<open>github.ts\<close> holds them, read as Windows-1252:
  U+00F0, U+0178, U+2019, U+00AC.
\<close>

definition speech_balloon_github :: jsstring where
  "speech_balloon_github = [0xF0, 0x178, 0x2019, 0xAC]"

definition continued :: jsstring where
  "continued = newline @ js ''(continued...)''"

text \<open>\<open>/!\[(.*?)\]\((https?:\/\/[^\s)]+)\)/g\<close>\<close>

definition markdown_image :: "item list" where
  "markdown_image =
     lit ''!['' @ [Open, Lazy dot, Close] @ lit ''](''
     @ [Open] @ lit ''http'' @ [Opt (is_char CHR ''s'')] @ lit ''://''
     @ [Plus (\<lambda>c. \<not> white_space c \<and> \<not> is_char CHR '')'' c), Close] @ lit '')''"

text \<open>The attribution header of \<open>makeDiscordMessage\<close> (\<open>messagePrefix\<close>).\<close>

definition messagePrefix :: "config \<Rightarrow> jsstring \<Rightarrow> nat \<Rightarrow> jsstring" where
  "messagePrefix cfg author number =
     speech_balloon @ js '' **'' @ author @ js ''** on [GitHub](<https://github.com/''
     @ GITHUB_OWNER cfg @ js ''/'' @ GITHUB_REPO cfg @ js ''/discussions/''
     @ numberToString number @ js ''>) wrote:'' @ newline"

text \<open>
  \<open>processedBody\<close> of \<open>makeDiscordMessage\<close> in \<open>discord.ts\<close>: the markdown images replaced
  by \<open>$2\<close>. The statement that follows in the source, \<open>processedBody = (processedBody)\<close>,
  changes nothing.
\<close>

definition processedBody :: "jsstring \<Rightarrow> jsstring" where
  "processedBody body = replace_g markdown_image (\<lambda>m caps. capture_group caps 1) body"

definition makeDiscordMessage :: "config \<Rightarrow> jsstring \<Rightarrow> nat \<Rightarrow> jsstring \<Rightarrow> jsstring" where
  "makeDiscordMessage cfg author number body =
     (let prefix = messagePrefix cfg author number;
          maxContentLength = 1900 - int (length prefix);
          processed = processedBody body
      in prefix @
         (if int (length processed) > maxContentLength
          then substring processed 0 maxContentLength @ continued
          else processed))"

text \<open>\<open>makeGithubComment\<close> of \<open>github.ts\<close>: the message goes through as it is.\<close>

definition makeGithubComment :: "jsstring \<Rightarrow> jsstring \<Rightarrow> jsstring \<Rightarrow> jsstring" where
  "makeGithubComment message author url =
     (let processedContent = message
      in speech_balloon_github @ js '' **'' @ author @ js ''** on [Discord]('' @ url
         @ js '') wrote:'' @ newline @ newline @ processedContent)"

text \<open>The link marker \<open><!-- Discord:${id} -->\<close>.\<close>

definition link_marker :: "jsstring \<Rightarrow> jsstring" where
  "link_marker threadId = js ''<!-- Discord:'' @ threadId @ js '' -->''"

text \<open>\<open>/<!-- Discord:(\d+) -->/g\<close>\<close>

definition marker_pattern :: "item list" where
  "marker_pattern = lit ''<!-- Discord:'' @ [Open, Plus digit, Close] @ lit '' -->''"

text \<open>\<open>https://discord.com/channels/${guild}/${thread}/${message}\<close>\<close>

definition message_url :: "ThreadChannel \<Rightarrow> jsstring \<Rightarrow> jsstring" where
  "message_url thread messageId =
     js ''https://discord.com/channels/'' @ t_guild_id thread @ js ''/'' @ t_id thread
     @ js ''/'' @ messageId"

section \<open>The two platforms and the effects of the program\<close>

text \<open>
  Every collaborator call and every log line of a run is recorded, in order, in a trace.
  The mutating calls are the last six.
\<close>

datatype level = Info | Alert | Failure | Console

datatype event =
    Log level jsstring
  | Fetch_channel jsstring
  | Fetch_threads jsstring
  | Fetch_messages jsstring
  | Query_discussions "jsstring option"
  | Query_comments nat "nat option"
  | Query_repository_id
  | Thread_send jsstring jsstring
  | Message_reply jsstring jsstring
  | Add_discussion_comment jsstring jsstring
  | Create_discussion "jsstring option" jsstring jsstring jsstring
  | Update_discussion jsstring jsstring
  | Create_thread jsstring jsstring jsstring

fun is_write :: "event \<Rightarrow> bool" where
  "is_write (Thread_send t c) = True"
| "is_write (Message_reply m c) = True"
| "is_write (Add_discussion_comment d b) = True"
| "is_write (Create_discussion c t b r) = True"
| "is_write (Update_discussion d b) = True"
| "is_write (Create_thread f n c) = True"
| "is_write e = False"


fun is_log :: "event \<Rightarrow> bool" where
  "is_log (Log l m) = True"
| "is_log e = False"

text \<open>
  The state of a run. \<open>discussionCache\<close> and \<open>REPO_CATEGORY_ID\<close> are the module variables
  of \<open>github.ts\<close>. The \<open>gh_\<close> and \<open>dc_\<close> fields are what GitHub and Discord hold:
  the discussions of the configured category in listing order, the comments of each
  discussion (by number) oldest first, the active threads of the forum, the messages of
  each thread (by id) newest first, as \<open>messages.fetch\<close> answers. \<open>gh_no_data\<close> says that the
  listing query resolves to nothing, \<open>next_id\<close> is the next id a platform hands out, and
  \<open>faults\<close> says which collaborator calls are rejected, with the message of the error.
\<close>

record world =
  discussionCache :: "GithubDiscussion list option"
  REPO_CATEGORY_ID :: "jsstring option"
  gh_discussions :: "GithubDiscussion list"
  gh_no_data :: bool
  gh_comments :: "nat \<Rightarrow> GithubComment list"
  gh_repository_id :: "jsstring option"
  dc_threads :: "ThreadChannel list"
  dc_messages :: "jsstring \<Rightarrow> Message list"
  next_id :: nat
  faults :: "event \<Rightarrow> jsstring option"
  trace :: "event list"

text \<open>
  An asynchronous function: from a state to a result, \<open>Inl\<close> the message of the error it
  throws, and the state it leaves. \<open>await\<close> sequences, \<open>catch\<close> is \<open>try { } catch (e) { }\<close>.
\<close>

type_synonym 'a io = "world \<Rightarrow> (jsstring + 'a) \<times> world"

definition ret :: "'a \<Rightarrow> 'a io" where
  "ret a w = (Inr a, w)"

definition throw :: "jsstring \<Rightarrow> 'a io" where
  "throw e w = (Inl e, w)"

definition await :: "'a io \<Rightarrow> ('a \<Rightarrow> 'b io) \<Rightarrow> 'b io" where
  "await m f w = (case m w of (Inl e, w1) \<Rightarrow> (Inl e, w1) | (Inr a, w1) \<Rightarrow> f a w1)"

definition catch :: "'a io \<Rightarrow> (jsstring \<Rightarrow> 'a io) \<Rightarrow> 'a io" where
  "catch m h w = (case m w of (Inl e, w1) \<Rightarrow> h e w1 | (Inr a, w1) \<Rightarrow> (Inr a, w1))"

text \<open>
  \<open>Promise.all\<close> of two reads: both are started, and the call is rejected when one of
  them is (with the first error, when both are).
\<close>

definition promise_all :: "'a io \<Rightarrow> 'b io \<Rightarrow> ('a \<times> 'b) io" where
  "promise_all m1 m2 w =
     (case m1 w of (r1, w1) \<Rightarrow>
        (case m2 w1 of (r2, w2) \<Rightarrow>
           (case r1 of
              Inl e \<Rightarrow> (Inl e, w2)
            | Inr a \<Rightarrow> (case r2 of Inl e \<Rightarrow> (Inl e, w2) | Inr b \<Rightarrow> (Inr (a, b), w2)))))"

definition emit :: "event \<Rightarrow> world \<Rightarrow> world" where
  "emit e w = w\<lparr>trace := trace w @ [e]\<rparr>"

definition logger :: "level \<Rightarrow> jsstring \<Rightarrow> unit io" where
  "logger l message w = (Inr (), emit (Log l message) w)"

text \<open>
  A collaborator call: it is recorded, and then either rejected or answered; \<open>effect\<close> is
  the platform's answer and what the call changes there.
\<close>

definition call :: "event \<Rightarrow> (world \<Rightarrow> 'a \<times> world) \<Rightarrow> 'a io" where
  "call e effect w =
     (case faults w e of
        Some message \<Rightarrow> (Inl message, emit e w)
      | None \<Rightarrow> (case effect (emit e w) of (a, w1) \<Rightarrow> (Inr a, w1)))"

text \<open>
  A \<open>for (let idx = start; idx < xs.length; idx++) { await body(xs[idx]) }\<close> loop: it stops
  at the first iteration that throws.
\<close>

function for_idx :: "nat \<Rightarrow> 'a list \<Rightarrow> ('a \<Rightarrow> unit io) \<Rightarrow> unit io" where
  "for_idx idx xs body w =
     (if idx < length xs
      then (case body (xs ! idx) w of
              (Inl e, w1) \<Rightarrow> (Inl e, w1)
            | (Inr u, w1) \<Rightarrow> for_idx (Suc idx) xs body w1)
      else (Inr (), w))"
  by pat_completeness auto
termination
  by (relation "measure (\<lambda>(idx, xs, body, w). length xs - idx)") auto

declare for_idx.simps [simp del]

subsection \<open>Discord (discord.ts)\<close>

definition listDiscordThreads :: "config \<Rightarrow> ThreadChannel list io" where
  "listDiscordThreads cfg =
     await (call (Fetch_channel (FORUM_CHANNEL_ID cfg)) (\<lambda>w. ((), w)))
       (\<lambda>forum. call (Fetch_threads (FORUM_CHANNEL_ID cfg)) (\<lambda>w. (dc_threads w, w)))"

text \<open>\<open>/^\<dots> \\*\\*.*\\*\\* on GitHub wrote:\\n/\<close>, with U+1F504 first; \<open>\\\<close> is a backslash.\<close>

definition from_github_pattern :: "item list" where
  "from_github_pattern =
     [Chr (\<lambda>c. c = 0xD83D), Chr (\<lambda>c. c = 0xDD04)] @ lit '' ''
     @ [Star (\<lambda>c. c = 92), Star (\<lambda>c. c = 92), Star dot, Star (\<lambda>c. c = 92), Star (\<lambda>c. c = 92)]
     @ lit '' on GitHub wrote:'' @ [Chr (\<lambda>c. c = 92)] @ lit ''n''"

definition threadMessage :: "config \<Rightarrow> Message \<Rightarrow> ThreadMessage" where
  "threadMessage cfg message =
     \<lparr>m_id = msg_id message,
      m_message = msg_content message,
      m_user = msg_author_username message,
      m_isAuthor = (msg_author_id message = discord_user_id cfg),
      m_fromGithub = (match_here from_github_pattern (msg_content message) \<noteq> None)\<rparr>"

text \<open>
  \<open>thread.messages.fetch()\<close>: the latest messages of the thread, at most 50, newest first.
\<close>

definition fetch_messages :: "ThreadChannel \<Rightarrow> Message list io" where
  "fetch_messages thread =
     call (Fetch_messages (t_id thread)) (\<lambda>w. (take 50 (dc_messages w (t_id thread)), w))"

text \<open>\<open>.toReversed().filter((_, idx) => idx > 0)\<close> drops the oldest fetched message.\<close>

definition listDiscordMessages :: "config \<Rightarrow> ThreadChannel \<Rightarrow> ThreadMessage list io" where
  "listDiscordMessages cfg thread =
     await (fetch_messages thread)
       (\<lambda>messages. ret (drop 1 (rev (map (threadMessage cfg) messages))))"

text \<open>What Discord does with a message the bot sends to a thread.\<close>

definition post_message :: "config \<Rightarrow> ThreadChannel \<Rightarrow> jsstring \<Rightarrow> world \<Rightarrow> world" where
  "post_message cfg thread content w =
     w\<lparr>dc_messages := (dc_messages w)
          (t_id thread :=
             \<lparr>msg_id = numberToString (next_id w), msg_content = content,
              msg_author_id = discord_user_id cfg, msg_author_username = discord_user_name cfg,
              msg_author_bot = True, msg_channel = Thread thread\<rparr>
             # dc_messages w (t_id thread)),
       next_id := Suc (next_id w)\<rparr>"

definition thread_send :: "config \<Rightarrow> ThreadChannel \<Rightarrow> jsstring \<Rightarrow> unit io" where
  "thread_send cfg thread content =
     call (Thread_send (t_id thread) content) (\<lambda>w. ((), post_message cfg thread content w))"

definition createThread ::
  "config \<Rightarrow> jsstring \<Rightarrow> nat \<Rightarrow> jsstring \<Rightarrow> jsstring \<Rightarrow> ThreadChannel option io" where
  "createThread cfg author number title body =
     await (call (Fetch_channel (FORUM_CHANNEL_ID cfg)) (\<lambda>w. ((), w)))
       (\<lambda>forum.
          await (logger Info (js ''[Discord] Creating thread on Discord forum ''
                   @ FORUM_CHANNEL_ID cfg @ js '': '' @ title))
            (\<lambda>u. call (Create_thread (FORUM_CHANNEL_ID cfg) title
                         (makeDiscordMessage cfg author number body))
                   (\<lambda>w. let thread = \<lparr>t_id = numberToString (next_id w), t_name = title,
                                       t_parentId = Some (FORUM_CHANNEL_ID cfg),
                                       t_guild_id = discord_guild_id cfg\<rparr>
                        in (Some thread,
                            post_message cfg thread (makeDiscordMessage cfg author number body)
                              (w\<lparr>dc_threads := thread # dc_threads w,
                                 next_id := Suc (next_id w)\<rparr>)))))"

definition pushDiscordMessage ::
  "config \<Rightarrow> ThreadChannel \<Rightarrow> GithubComment \<Rightarrow> GithubDiscussion \<Rightarrow> unit io" where
  "pushDiscordMessage cfg thread comment discussion =
     await (logger Info (js ''[Discord] Sending message to Discord thread '' @ t_id thread
              @ js '': '' @ c_body comment))
       (\<lambda>u. thread_send cfg thread
               (makeDiscordMessage cfg (c_author_login comment) (d_number discussion)
                  (c_body comment)))"

subsection \<open>GitHub (github.ts)\<close>

definition pushGithubComment ::
  "config \<Rightarrow> ThreadChannel \<Rightarrow> ThreadMessage \<Rightarrow> GithubDiscussion \<Rightarrow> unit io" where
  "pushGithubComment cfg thread message discussion =
     (let url = message_url thread (m_id message)
      in await (logger Info (js ''[Github] Sending comment to GitHub discussion ''
                  @ numberToString (d_number discussion) @ js '': '' @ m_message message))
           (\<lambda>u. call (Add_discussion_comment (d_id discussion)
                        (makeGithubComment (m_message message) (m_user message) url))
                  (\<lambda>w. ((), w\<lparr>gh_comments := (gh_comments w)
                                 (d_number discussion :=
                                    gh_comments w (d_number discussion)
                                    @ [\<lparr>c_id = js ''DC_'' @ numberToString (next_id w),
                                        c_body = makeGithubComment (m_message message)
                                                   (m_user message) url,
                                        c_author_login = github_login cfg\<rparr>]),
                              next_id := Suc (next_id w)\<rparr>))))"

text \<open>
  One page of the comments query: at most 100 nodes after the cursor, whether more
  follow, and the cursor of the last node.
\<close>

definition query_comments :: "nat \<Rightarrow> nat option \<Rightarrow> (GithubComment list \<times> bool \<times> nat) io" where
  "query_comments number offset =
     call (Query_comments number offset)
       (\<lambda>w. let start = (case offset of None \<Rightarrow> 0 | Some k \<Rightarrow> k);
                nodes = take 100 (drop start (gh_comments w number))
            in ((nodes, start + 100 < length (gh_comments w number), start + length nodes), w))"

text \<open>The \<open>while (hasNextPage)\<close> loop of \<open>listGithubComments\<close>.\<close>

function comment_pages ::
  "GithubDiscussion \<Rightarrow> GithubComment list \<Rightarrow> nat option \<Rightarrow> GithubComment list io" where
  "comment_pages discussion comments offset w =
     (case query_comments (d_number discussion) offset w of
        (Inl e, w1) \<Rightarrow> (Inl e, w1)
      | (Inr (nodes, hasNextPage, endCursor), w1) \<Rightarrow>
          if hasNextPage
          then comment_pages discussion (comments @ nodes) (Some endCursor) w1
          else (Inr (comments @ nodes), w1))"
  by pat_completeness auto
termination
  by (relation "measure (\<lambda>(discussion, comments, offset, w).
        length (gh_comments w (d_number discussion))
        - (case offset of None \<Rightarrow> 0 | Some k \<Rightarrow> k))")
     (auto simp: query_comments_def call_def emit_def Let_def split: option.splits)

declare comment_pages.simps [simp del]

definition listGithubComments :: "GithubDiscussion \<Rightarrow> GithubComment list io" where
  "listGithubComments discussion = comment_pages discussion [] None"

definition updateDiscussion :: "GithubDiscussion \<Rightarrow> jsstring \<Rightarrow> unit io" where
  "updateDiscussion discussion discordId =
     await (logger Info (js ''[Github] Updating discussion #''
              @ numberToString (d_number discussion) @ js '' with body: '' @ d_body discussion))
       (\<lambda>u. call (Update_discussion (d_id discussion)
                    (d_body discussion @ newline @ newline @ link_marker discordId))
              (\<lambda>w. ((), w\<lparr>gh_discussions :=
                            map (\<lambda>d. if d_id d = d_id discussion
                                     then d\<lparr>d_body := d_body discussion @ newline @ newline
                                                        @ link_marker discordId\<rparr>
                                     else d)
                              (gh_discussions w)\<rparr>)))"

definition getRepositoryId :: "config \<Rightarrow> jsstring io" where
  "getRepositoryId cfg =
     catch
       (await (call Query_repository_id (\<lambda>w. (gh_repository_id w, w)))
          (\<lambda>repository.
             case repository of
               None \<Rightarrow> throw (js ''Repository '' @ GITHUB_OWNER cfg @ js ''/'' @ GITHUB_REPO cfg
                         @ js '' not found. Check your GITHUB_OWNER and GITHUB_REPO settings.'')
             | Some repositoryId \<Rightarrow> ret repositoryId))
       (\<lambda>message.
          await (logger Failure (js ''[Github] Failed to fetch repository ID: '' @ message))
            (\<lambda>u. throw (js ''Cannot access repository: '' @ message)))"

text \<open>
  What GitHub does with a \<open>createDiscussion\<close> mutation: the new discussion, with the title
  and body of the call, joins the discussions of the category.
\<close>

definition new_discussion :: "config \<Rightarrow> jsstring \<Rightarrow> jsstring \<Rightarrow> world \<Rightarrow> GithubDiscussion" where
  "new_discussion cfg title body w =
     \<lparr>d_id = js ''D_'' @ numberToString (next_id w), d_number = next_id w, d_title = title,
      d_body = body, d_author_login = github_login cfg,
      d_category_name = Some (CATEGORY_NAME cfg)\<rparr>"

text \<open>
  \<open>createDiscussion\<close>. The mutation asks for \<open>id\<close> and \<open>number\<close> only, so the object it
  returns has no other field; they are empty here, and no caller reads them.
\<close>

definition createDiscussion ::
  "config \<Rightarrow> ThreadChannel \<Rightarrow> Message \<Rightarrow> GithubDiscussion option io" where
  "createDiscussion cfg thread message =
     (let author = msg_author_username message;
          url = message_url thread (msg_id message)
      in await (logger Info (js ''[Github] Creating discussion on GitHub repository ''
                  @ CATEGORY_NAME cfg @ js '': '' @ t_name thread))
           (\<lambda>u. await (getRepositoryId cfg)
              (\<lambda>repositoryId w.
                 call (Create_discussion (REPO_CATEGORY_ID w) (t_name thread)
                         (makeGithubComment
                            (msg_content message @ newline @ newline @ link_marker (t_id thread))
                            author url)
                         repositoryId)
                   (\<lambda>w. let d = new_discussion cfg (t_name thread)
                                   (makeGithubComment
                                      (msg_content message @ newline @ newline
                                       @ link_marker (t_id thread))
                                      author url) w
                        in (Some \<lparr>d_id = d_id d, d_number = d_number d, d_title = [],
                                  d_body = [], d_author_login = [], d_category_name = None\<rparr>,
                            w\<lparr>gh_discussions := gh_discussions w @ [d],
                              next_id := Suc (next_id w)\<rparr>))
                   w)))"

text \<open>
  \<open>listGithubDiscussions\<close>: the cached listing when there is one (an array is truthy, also
  when empty), and otherwise the first 100 discussions of the category, without their
  category, which become the cache.
\<close>

definition listGithubDiscussions :: "GithubDiscussion list io" where
  "listGithubDiscussions w =
     (case discussionCache w of
        Some cached \<Rightarrow> (Inr cached, w)
      | None \<Rightarrow>
          await (call (Query_discussions (REPO_CATEGORY_ID w))
                   (\<lambda>w. (if gh_no_data w then None
                          else Some (map (\<lambda>d. d\<lparr>d_category_name := None\<rparr>)
                                       (take 100 (gh_discussions w))), w)))
            (\<lambda>discussions.
               case discussions of
                 None \<Rightarrow> throw (js ''Discussions not found.'')
               | Some nodes \<Rightarrow> (\<lambda>w. (Inr nodes, w\<lparr>discussionCache := Some nodes\<rparr>)))
            w)"

section \<open>The synchronisation (index.ts)\<close>

definition findThreadOnGitHub :: "ThreadChannel \<Rightarrow> GithubDiscussion option io" where
  "findThreadOnGitHub thread =
     await listGithubDiscussions
       (\<lambda>discussions.
          ret (find (\<lambda>it. js_includes (d_body it) (link_marker (t_id thread))) discussions))"

text \<open>
  \<open>/<!-- Discord:(\d+) -->/g.exec(discussion.body)?.[1]\<close> is the first group of the
  leftmost match, or \<open>undefined\<close>, which is the id of no thread.
\<close>

definition marker_id :: "jsstring \<Rightarrow> jsstring option" where
  "marker_id body =
     (case search marker_pattern body of
        None \<Rightarrow> None
      | Some (index, caps, rest) \<Rightarrow> Some (capture_group caps 0))"

definition findDiscussionOnDiscord ::
  "config \<Rightarrow> GithubDiscussion \<Rightarrow> ThreadChannel option io" where
  "findDiscussionOnDiscord cfg discussion =
     await (listDiscordThreads cfg)
       (\<lambda>threads.
          let id = marker_id (d_body discussion)
          in ret (find (\<lambda>it. Some (t_id it) = id) threads))"

definition syncMessages :: "config \<Rightarrow> ThreadChannel \<Rightarrow> GithubDiscussion \<Rightarrow> unit io" where
  "syncMessages cfg thread discussion =
     await (logger Info (js ''Loading messages from thread '' @ t_id thread
              @ js '' & discussion '' @ d_id discussion))
       (\<lambda>u. await (promise_all (listDiscordMessages cfg thread) (listGithubComments discussion))
          (\<lambda>(threadMessages, discussionMessages).
             if length threadMessages = length discussionMessages
             then logger Info (js ''No new messages to sync between Discord thread ''
                    @ t_id thread @ js '' & GitHub discussion '' @ d_id discussion)
             else if length threadMessages < length discussionMessages
             then await (logger Info (js ''Syncing messages from GitHub to Discord''))
                    (\<lambda>u. if DRY_RUN cfg
                          then logger Info (js ''Dry run enabled, skipping actual sync'')
                          else for_idx (length threadMessages) discussionMessages
                                 (\<lambda>message. pushDiscordMessage cfg thread message discussion))
             else await (logger Info (js ''Syncing messages from Discord to GitHub''))
                    (\<lambda>u. if DRY_RUN cfg
                          then logger Info (js ''Dry run enabled, skipping actual sync'')
                          else for_idx (length discussionMessages) threadMessages
                                 (\<lambda>message. pushGithubComment cfg thread message discussion))))"

text \<open>
  \<open>syncDiscussionOnDiscord\<close>. \<open>createThread\<close> returns the thread discord.js answers or
  throws, so the \<open>!res\<close> branch is there but never taken.
\<close>

definition syncDiscussionOnDiscord :: "config \<Rightarrow> GithubDiscussion \<Rightarrow> unit io" where
  "syncDiscussionOnDiscord cfg discussion =
     (if d_category_name discussion \<noteq> Some (CATEGORY_NAME cfg)
      then logger Info (js ''skipping discussion not in the correct category'')
      else await (findDiscussionOnDiscord cfg discussion)
             (\<lambda>found.
                case found of
                  Some thread \<Rightarrow> syncMessages cfg thread discussion
                | None \<Rightarrow>
                    await (logger Info (js ''Creating thread on Discord''))
                      (\<lambda>u. if DRY_RUN cfg
                            then logger Info (js ''Dry run: Skipping creation of thread on Discord'')
                            else await (createThread cfg (d_author_login discussion)
                                          (d_number discussion) (d_title discussion)
                                          (d_body discussion))
                                   (\<lambda>res.
                                      case res of
                                        None \<Rightarrow>
                                          logger Alert
                                            (js ''Failed to create thread on Discord forum ''
                                             @ FORUM_CHANNEL_ID cfg @ js '': ''
                                             @ d_title discussion)
                                      | Some thread \<Rightarrow>
                                          await (updateDiscussion discussion (t_id thread))
                                            (\<lambda>u. syncMessages cfg thread discussion)))))"

text \<open>
  \<open>syncThreadOnGitHub\<close>. The seed is \<open>(await thread.messages.fetch()).reverse().at(0)!\<close>,
  the oldest fetched message; when nothing was fetched it is \<open>undefined\<close> and
  \<open>createDiscussion\<close> throws a \<open>TypeError\<close> on \<open>message.author\<close>.
\<close>

definition syncThreadOnGitHub :: "config \<Rightarrow> ThreadChannel \<Rightarrow> unit io" where
  "syncThreadOnGitHub cfg thread =
     await (findThreadOnGitHub thread)
       (\<lambda>found.
          case found of
            Some discussion \<Rightarrow> syncMessages cfg thread discussion
          | None \<Rightarrow>
              await (logger Info (js ''Creating discussion on GitHub''))
                (\<lambda>u. if DRY_RUN cfg
                      then logger Info (js ''Dry run: Skipping creation of discussion on GitHub'')
                      else await (fetch_messages thread)
                             (\<lambda>messages.
                                case rev messages of
                                  [] \<Rightarrow> throw (js ''undefined is not an object'')
                                | message # older \<Rightarrow>
                                    await (createDiscussion cfg thread message)
                                      (\<lambda>created.
                                         case created of
                                           None \<Rightarrow>
                                             logger Alert
                                               (js ''Failed to create discussion on GitHub category ''
                                                @ CATEGORY_NAME cfg @ js '': '' @ t_name thread)
                                         | Some discussion \<Rightarrow>
                                             syncMessages cfg thread discussion))))"

subsection \<open>Triggers\<close>

text \<open>The webhook request: the \<open>x-github-event\<close> header and the two fields of the body.\<close>

record webhook_request =
  req_event :: "jsstring option"
  req_action :: jsstring
  req_discussion :: GithubDiscussion

text \<open>The handler of \<open>/webhook\<close>; its result is the status it sends.\<close>

definition webhook :: "config \<Rightarrow> webhook_request \<Rightarrow> nat io" where
  "webhook cfg req =
     catch
       (await
          (if req_event req = Some (js ''discussion'') \<and> req_action req = js ''created''
           then await (logger Info (js ''Received discussion creation event''))
                  (\<lambda>u. syncDiscussionOnDiscord cfg (req_discussion req))
           else if req_event req = Some (js ''discussion_comment'')
                   \<and> req_action req = js ''created''
           then await (logger Info (js ''Received discussion comment event''))
                  (\<lambda>u. syncDiscussionOnDiscord cfg (req_discussion req))
           else ret ())
          (\<lambda>u. ret 200))
       (\<lambda>e. await (logger Failure (js ''Webhook handler error: Error: '' @ e)) (\<lambda>u. ret 500))"

text \<open>
  The \<open>threadCreate\<close> handler. Its first statement is \<open>return;\<close>: the \<open>try\<close> block after
  it, with the parent check and the call of \<open>syncThreadOnGitHub\<close>, is never reached.
\<close>

definition threadCreate :: "config \<Rightarrow> ThreadChannel \<Rightarrow> unit io" where
  "threadCreate cfg thread = ret ()"

definition message_reply :: "config \<Rightarrow> Message \<Rightarrow> jsstring \<Rightarrow> unit io" where
  "message_reply cfg message content =
     call (Message_reply (msg_id message) content)
       (\<lambda>w. ((), case msg_channel message of
                    Thread thread \<Rightarrow> post_message cfg thread content w
                  | OtherChannel c \<Rightarrow> w))"

text \<open>The \<open>messageCreate\<close> handler.\<close>

definition messageCreate :: "config \<Rightarrow> Message \<Rightarrow> unit io" where
  "messageCreate cfg message =
     catch
       (case msg_channel message of
          OtherChannel c \<Rightarrow> logger Info (js ''message not in thread'')
        | Thread thread \<Rightarrow>
            if t_parentId thread \<noteq> Some (FORUM_CHANNEL_ID cfg)
            then logger Info (js ''thread not in forum channel'')
            else if msg_author_bot message
                    \<or> js_includes (msg_content message) (speech_balloon @ js '' **'')
            then logger Info (js ''message ignored'')
            else syncThreadOnGitHub cfg thread)
       (\<lambda>e. await (logger Failure (js ''Discord messageCreate error: '' @ e))
              (\<lambda>u. catch (message_reply cfg message (js ''Failed to sync to GitHub: '' @ e))
                     (\<lambda>replyError.
                        logger Failure (js ''Failed to send error reply: Error: '' @ replyError))))"

section \<open>The single-file version of the program\<close>

text \<open>
  The repository also holds the program as one file, from before it was split into
  \<open>index.ts\<close>, \<open>discord.ts\<close> and \<open>github.ts\<close>. Its functions that differ from the ones
  above carry the suffix \<open>_legacy\<close>. In that file the speech balloon is the four code
  units U+F8FF, U+00FC, U+00ED, U+00A8.
\<close>

definition speech_balloon_legacy :: jsstring where
  "speech_balloon_legacy = [0xF8FF, 0xFC, 0xED, 0xA8]"

definition quote :: "nat \<Rightarrow> bool" where
  "quote c = (c = 34)"

text \<open>\<open>/<img.*?src="(https:\/\/github\.com\/user-attachments\/assets\/[^"]+)".*?\/>/g\<close>\<close>

definition img_attachment :: "item list" where
  "img_attachment =
     lit ''<img'' @ [Lazy dot] @ lit ''src='' @ [Chr quote, Open]
     @ lit ''https://github.com/user-attachments/assets/''
     @ [Plus (\<lambda>c. \<not> quote c), Close, Chr quote, Lazy dot] @ lit ''/>''"

text \<open>\<open>/<img.*?src="(https?:\/\/[^"]+)".*?\/>/g\<close>\<close>

definition img_any :: "item list" where
  "img_any =
     lit ''<img'' @ [Lazy dot] @ lit ''src='' @ [Chr quote, Open]
     @ lit ''http'' @ [Opt (is_char CHR ''s'')] @ lit ''://''
     @ [Plus (\<lambda>c. \<not> quote c), Close, Chr quote, Lazy dot] @ lit ''/>''"

text \<open>\<open>/(https:\/\/github\.com\/user-attachments\/assets\/[a-zA-Z0-9-]+)/g\<close>\<close>

definition attachment_url :: "item list" where
  "attachment_url =
     [Open] @ lit ''https://github.com/user-attachments/assets/'' @ [Plus alnum_dash, Close]"

text \<open>
  The \<open>while ((match = attachmentRegex.exec(processedContent)) !== null)\<close> loop of
  \<open>processGitHubAttachments\<close>, on the content and \<open>attachmentRegex.lastIndex\<close>.
  \<open>charAt\<close> outside the string is empty, and then \<open>before\<close> or \<open>after\<close> is a newline.
\<close>

function attachment_loop :: "jsstring \<Rightarrow> nat \<Rightarrow> jsstring" where
  "attachment_loop processedContent lastIndex =
     (case search attachment_url (drop lastIndex processedContent) of
        None \<Rightarrow> processedContent
      | Some (skipped, caps, rest) \<Rightarrow>
          (let position = lastIndex + skipped;
               fullMatch = length processedContent - position - length rest;
               before_is_newline =
                 (position = 0 \<or> processedContent ! (position - 1) = 10);
               after_is_newline =
                 (length processedContent \<le> position + fullMatch
                  \<or> processedContent ! (position + fullMatch) = 10);
               content1 =
                 (if before_is_newline then processedContent
                  else take position processedContent @ newline
                       @ drop position processedContent);
               insertPosition = position + fullMatch + (if before_is_newline then 0 else 1);
               content2 =
                 (if after_is_newline then content1
                  else take insertPosition content1 @ newline @ drop insertPosition content1)
           in attachment_loop content2
                (position + fullMatch + (if before_is_newline then 0 else 1)
                 + (if after_is_newline then 0 else 1))))"
  by pat_completeness auto
termination
proof (relation "measure (\<lambda>(content, lastIndex). length content - lastIndex)")
  show "wf (measure (\<lambda>(content, lastIndex). length content - lastIndex))"
    by simp
next
  fix processedContent :: jsstring and lastIndex :: nat
    and x2 :: "nat \<times> jsstring list \<times> jsstring" and skipped y caps rest
    and position fullMatch before_is_newline after_is_newline content1 insertPosition content2
  assume found: "search attachment_url (drop lastIndex processedContent) = Some x2"
    and x2: "(skipped, y) = x2" "(caps, rest) = y"
    and defs: "position = lastIndex + skipped"
      "fullMatch = length processedContent - position - length rest"
      "before_is_newline = (position = 0 \<or> processedContent ! (position - 1) = 10)"
      "after_is_newline =
         (length processedContent \<le> position + fullMatch
          \<or> processedContent ! (position + fullMatch) = 10)"
      "content1 =
         (if before_is_newline then processedContent
          else take position processedContent @ newline @ drop position processedContent)"
      "insertPosition = position + fullMatch + (if before_is_newline then 0 else 1)"
      "content2 =
         (if after_is_newline then content1
          else take insertPosition content1 @ newline @ drop insertPosition content1)"
  have shorter: "length r \<le> length s" if "rmatch re g s = Some (c, r)" for re g s c r
    using that
    by (induction re g s arbitrary: c r rule: rmatch.induct)
       (fastforce split: if_splits option.splits)+
  have here: "length r < length s" if "match_here attachment_url s = Some (c, r)" for s c r
  proof (cases s)
    case Nil
    with that show ?thesis
      by (simp add: match_here_def attachment_url_def lit_def)
  next
    case (Cons a as)
    with that obtain g where "rmatch (tl (tl attachment_url)) g as = Some (c, r)"
      by (auto simp: match_here_def attachment_url_def lit_def split: if_splits)
    from shorter [OF this] Cons show ?thesis
      by simp
  qed
  have found_less: "k + length r < length s"
    if "search attachment_url s = Some (k, c, r)" for s k c r
    using that
  proof (induction s arbitrary: k)
    case Nil
    then show ?case
      by (auto simp: match_here_def attachment_url_def lit_def split: option.splits)
  next
    case (Cons a s)
    show ?case
    proof (cases "match_here attachment_url (a # s)")
      case None
      with Cons.prems obtain k' where "search attachment_url s = Some (k', c, r)" "k = Suc k'"
        by (auto split: option.splits)
      with Cons.IH show ?thesis
        by fastforce
    next
      case (Some m)
      with Cons.prems have "match_here attachment_url (a # s) = Some (c, r)" "k = 0"
        by (auto split: option.splits)
      with here show ?thesis
        by fastforce
    qed
  qed
  from found x2 have "search attachment_url (drop lastIndex processedContent)
      = Some (skipped, caps, rest)"
    by auto
  from found_less [OF this]
  have less: "lastIndex + skipped + length rest < length processedContent"
    by simp
  have len1: "length content1 = length processedContent + (if before_is_newline then 0 else 1)"
    using less by (auto simp: defs(1,5) newline_def min_def)
  have len2: "length content2 = length content1 + (if after_is_newline then 0 else 1)"
    by (auto simp: defs(7) newline_def min_def)
  show "((content2,
          position + fullMatch + (if before_is_newline then 0 else 1)
          + (if after_is_newline then 0 else 1)),
         (processedContent, lastIndex))
        \<in> measure (\<lambda>(content, lastIndex). length content - lastIndex)"
    using less by (simp add: len1 len2 defs(1,2))
qed

declare attachment_loop.simps [simp del]

definition processGitHubAttachments :: "jsstring \<Rightarrow> jsstring" where
  "processGitHubAttachments content =
     (let processedContent1 =
            replace_g img_attachment (\<lambda>m caps. newline @ capture_group caps 0 @ newline) content;
          processedContent2 =
            replace_g img_any (\<lambda>m caps. newline @ capture_group caps 0 @ newline)
              processedContent1
      in attachment_loop processedContent2 0)"

text \<open>
  \<open>/<img.*?src="(https?:\/\/[^"]+)".*?alt="([^"]*)".*?\/>/gi\<close>,
  \<open>/<img.*?src="(https?:\/\/[^"]+)".*?\/>/gi\<close> and
  \<open>/(https:\/\/github\.com\/user-attachments\/assets\/[a-zA-Z0-9-]+)/gi\<close>
\<close>

definition img_alt_i :: "item list" where
  "img_alt_i =
     lit_i ''<img'' @ [Lazy dot] @ lit_i ''src='' @ [Chr quote, Open]
     @ lit_i ''http'' @ [Opt (\<lambda>c. upper c = upper (of_char CHR ''s''))] @ lit_i ''://''
     @ [Plus (\<lambda>c. \<not> quote c), Close, Chr quote, Lazy dot] @ lit_i ''alt='' @ [Chr quote, Open,
        Star (\<lambda>c. \<not> quote c), Close, Chr quote, Lazy dot] @ lit_i ''/>''"

definition img_any_i :: "item list" where
  "img_any_i =
     lit_i ''<img'' @ [Lazy dot] @ lit_i ''src='' @ [Chr quote, Open]
     @ lit_i ''http'' @ [Opt (\<lambda>c. upper c = upper (of_char CHR ''s''))] @ lit_i ''://''
     @ [Plus (\<lambda>c. \<not> quote c), Close, Chr quote, Lazy dot] @ lit_i ''/>''"

definition attachment_url_i :: "item list" where
  "attachment_url_i =
     [Open] @ lit_i ''https://github.com/user-attachments/assets/'' @ [Plus alnum_dash, Close]"

text \<open>
  \<open>convertAttachmentsToMarkdown\<close>. The callback of the third replacement reads
  \<open>processedContent\<close>, which still is the content before that replacement.
\<close>

definition convertAttachmentsToMarkdown :: "jsstring \<Rightarrow> jsstring" where
  "convertAttachmentsToMarkdown content =
     (let processedContent1 =
            replace_g img_alt_i
              (\<lambda>m caps. js ''!['' @ capture_group caps 1 @ js '']('' @ capture_group caps 0
                         @ js '')'')
              content;
          processedContent2 =
            replace_g img_any_i (\<lambda>m caps. js ''![Image]('' @ capture_group caps 0 @ js '')'')
              processedContent1
      in replace_g attachment_url_i
           (\<lambda>m caps.
              if js_includes processedContent2 (js ''!['')
                 \<and> js_includes processedContent2 (js '']('' @ m @ js '')'')
              then m
              else js ''![GitHub Image]('' @ m @ js '')'')
           processedContent2)"

definition messagePrefix_legacy :: "config \<Rightarrow> jsstring \<Rightarrow> nat \<Rightarrow> jsstring" where
  "messagePrefix_legacy cfg author number =
     speech_balloon_legacy @ js '' **'' @ author @ js ''** on [GitHub](<https://github.com/''
     @ GITHUB_OWNER cfg @ js ''/'' @ GITHUB_REPO cfg @ js ''/discussions/''
     @ numberToString number @ js ''>) wrote:'' @ newline"

definition makeDiscordMessage_legacy ::
  "config \<Rightarrow> jsstring \<Rightarrow> nat \<Rightarrow> jsstring \<Rightarrow> jsstring" where
  "makeDiscordMessage_legacy cfg author number body =
     (let prefix = messagePrefix_legacy cfg author number;
          maxContentLength = 1900 - int (length prefix);
          processed = processGitHubAttachments (processedBody body)
      in prefix @
         (if int (length processed) > maxContentLength
          then substring processed 0 maxContentLength @ continued
          else processed))"

definition makeGithubComment_legacy :: "jsstring \<Rightarrow> jsstring \<Rightarrow> jsstring \<Rightarrow> jsstring" where
  "makeGithubComment_legacy message author url =
     (let processedContent = convertAttachmentsToMarkdown message
      in speech_balloon_legacy @ js '' **'' @ author @ js ''** on [Discord]('' @ url
         @ js '') wrote:'' @ newline @ newline @ processedContent)"

definition pushDiscordMessage_legacy ::
  "config \<Rightarrow> ThreadChannel \<Rightarrow> GithubComment \<Rightarrow> GithubDiscussion \<Rightarrow> unit io" where
  "pushDiscordMessage_legacy cfg thread comment discussion =
     (if DRY_RUN cfg
      then logger Console (js ''[DRY RUN] Sending message to Discord thread '' @ t_id thread
             @ js '': '' @ c_body comment)
      else await (logger Console (js ''Sending message to Discord thread '' @ t_id thread
                    @ js '': '' @ c_body comment))
             (\<lambda>u. thread_send cfg thread
                     (makeDiscordMessage_legacy cfg (c_author_login comment)
                        (d_number discussion) (c_body comment))))"

definition pushGithubComment_legacy ::
  "config \<Rightarrow> ThreadChannel \<Rightarrow> ThreadMessage \<Rightarrow> GithubDiscussion \<Rightarrow> unit io" where
  "pushGithubComment_legacy cfg thread message discussion =
     (if DRY_RUN cfg
      then logger Console (js ''[DRY RUN] Sending comment to GitHub discussion ''
             @ numberToString (d_number discussion) @ js '': '' @ m_message message)
      else (let url = message_url thread (m_id message)
            in await (logger Console (js ''Sending comment to GitHub discussion ''
                        @ numberToString (d_number discussion) @ js '': '' @ m_message message))
                 (\<lambda>u. call (Add_discussion_comment (d_id discussion)
                              (makeGithubComment_legacy (m_message message) (m_user message)
                                 url))
                        (\<lambda>w. ((), w\<lparr>gh_comments := (gh_comments w)
                                       (d_number discussion :=
                                          gh_comments w (d_number discussion)
                                          @ [\<lparr>c_id = js ''DC_'' @ numberToString (next_id w),
                                              c_body = makeGithubComment_legacy
                                                         (m_message message) (m_user message) url,
                                              c_author_login = github_login cfg\<rparr>]),
                                    next_id := Suc (next_id w)\<rparr>)))))"

definition syncMessages_legacy ::
  "config \<Rightarrow> ThreadChannel \<Rightarrow> GithubDiscussion \<Rightarrow> unit io" where
  "syncMessages_legacy cfg thread discussion =
     await (listDiscordMessages cfg thread)
       (\<lambda>threadMessages.
          await (listGithubComments discussion)
            (\<lambda>discussionMessages.
               if length threadMessages < length discussionMessages
               then for_idx (length threadMessages) discussionMessages
                      (\<lambda>message. pushDiscordMessage_legacy cfg thread message discussion)
               else for_idx (length discussionMessages) threadMessages
                      (\<lambda>message. pushGithubComment_legacy cfg thread message discussion)))"

text \<open>
  \<open>findThreadOnGitHub\<close> of the single file: the discussions titled like the thread, and
  among them the first whose body contains the thread's id.
\<close>

definition findThreadOnGitHub_legacy :: "ThreadChannel \<Rightarrow> GithubDiscussion option io" where
  "findThreadOnGitHub_legacy thread =
     await listGithubDiscussions
       (\<lambda>discussions.
          ret (find (\<lambda>it. js_includes (d_body it) (t_id thread))
                 (filter (\<lambda>it. d_title it = t_name thread) discussions)))"

section \<open>Observing a run\<close>

text \<open>
  The events a function adds to the trace when it runs in state \<open>w\<close>, and the mutating
  collaborator calls among them.
\<close>

definition events_of :: "'a io \<Rightarrow> world \<Rightarrow> event list" where
  "events_of m w = drop (length (trace w)) (trace (snd (m w)))"

definition writes_of :: "'a io \<Rightarrow> world \<Rightarrow> event list" where
  "writes_of m w = filter is_write (events_of m w)"

fun is_push :: "event \<Rightarrow> bool" where
  "is_push (Thread_send t c) = True"
| "is_push (Add_discussion_comment d b) = True"
| "is_push e = False"

text \<open>
  A property of the state that a function never destroys, however it ends.
\<close>

definition stable :: "(world \<Rightarrow> bool) \<Rightarrow> 'a io \<Rightarrow> bool" where
  "stable I m = (\<forall>w. I w \<longrightarrow> I (snd (m w)))"

text \<open>A restart of the process: the module variables are initialised again.\<close>

definition restart :: "world \<Rightarrow> world" where
  "restart w = w\<lparr>discussionCache := None\<rparr>"

text \<open>
  The operations that run during the lifetime of the process: the three triggers, the two
  synchronisation entry points the start-up enumeration calls, and the two GitHub
  mutations of \<open>github.ts\<close>.
\<close>

datatype operation =
    Webhook webhook_request
  | ThreadCreate ThreadChannel
  | MessageCreate Message
  | SyncThreadOnGitHub ThreadChannel
  | SyncDiscussionOnDiscord GithubDiscussion
  | CreateDiscussion ThreadChannel Message
  | UpdateDiscussion GithubDiscussion jsstring

fun perform :: "config \<Rightarrow> operation \<Rightarrow> world \<Rightarrow> world" where
  "perform cfg (Webhook req) w = snd (webhook cfg req w)"
| "perform cfg (ThreadCreate thread) w = snd (threadCreate cfg thread w)"
| "perform cfg (MessageCreate message) w = snd (messageCreate cfg message w)"
| "perform cfg (SyncThreadOnGitHub thread) w = snd (syncThreadOnGitHub cfg thread w)"
| "perform cfg (SyncDiscussionOnDiscord discussion) w =
     snd (syncDiscussionOnDiscord cfg discussion w)"
| "perform cfg (CreateDiscussion thread message) w = snd (createDiscussion cfg thread message w)"
| "perform cfg (UpdateDiscussion discussion discordId) w =
     snd (updateDiscussion discussion discordId w)"

definition perform_all :: "config \<Rightarrow> operation list \<Rightarrow> world \<Rightarrow> world" where
  "perform_all cfg ops w = foldl (\<lambda>w op. perform cfg op w) w ops"

section \<open>Example values\<close>

definition example_config :: config where
  "example_config =
     \<lparr>FORUM_CHANNEL_ID = js ''1375527112521552003'', GITHUB_REPO = js ''repo'',
      GITHUB_OWNER = js ''owner'', CATEGORY_NAME = js ''General'', DRY_RUN = False,
      discord_user_id = js ''99'', discord_user_name = js ''sync-bot'',
      discord_guild_id = js ''5'', github_login = js ''sync-bot''\<rparr>"


definition example_thread :: ThreadChannel where
  "example_thread =
     \<lparr>t_id = js ''42'', t_name = js ''Bug: crash on startup'',
      t_parentId = Some (js ''1375527112521552003''), t_guild_id = js ''5''\<rparr>"

definition example_seed :: Message where
  "example_seed =
     \<lparr>msg_id = js ''100'', msg_content = js ''Steps to reproduce...'',
      msg_author_id = js ''7'', msg_author_username = js ''carol'', msg_author_bot = False,
      msg_channel = Thread example_thread\<rparr>"

definition example_discussion :: GithubDiscussion where
  "example_discussion =
     \<lparr>d_id = js ''D_1'', d_number = 1, d_title = js ''Bug: crash on startup'',
      d_body = js ''Steps to reproduce... <!-- Discord:42 -->'', d_author_login = js ''sync-bot'',
      d_category_name = Some (js ''General'')\<rparr>"

definition comment_one :: GithubComment where
  "comment_one = \<lparr>c_id = js ''DC_1'', c_body = js ''first'', c_author_login = js ''alice''\<rparr>"

definition comment_two :: GithubComment where
  "comment_two = \<lparr>c_id = js ''DC_2'', c_body = js ''second'', c_author_login = js ''bob''\<rparr>"

text \<open>
  A linked pair: the thread holds its seed message only, the discussion has two comments.
\<close>

definition linked_world :: world where
  "linked_world =
     \<lparr>discussionCache = None, REPO_CATEGORY_ID = Some (js ''CAT''),
      gh_discussions = [example_discussion], gh_no_data = False,
      gh_comments = (\<lambda>n. if n = 1 then [comment_one, comment_two] else []),
      gh_repository_id = Some (js ''R_1''),
      dc_threads = [example_thread],
      dc_messages = (\<lambda>t. if t = js ''42'' then [example_seed] else []),
      next_id = 1000, faults = Map.empty, trace = []\<rparr>"

text \<open>The same thread when GitHub has no discussion yet.\<close>

definition unlinked_world :: world where
  "unlinked_world = linked_world\<lparr>gh_discussions := [], gh_comments := (\<lambda>n. [])\<rparr>"

text \<open>
  A message a person writes in the thread, quoting the attribution marker in the middle
  of the text.
\<close>

definition quoting_message :: Message where
  "quoting_message =
     \<lparr>msg_id = js ''101'',
      msg_content = js ''the bot writes '' @ (speech_balloon @ js '' **'') @ js ''name** first'',
      msg_author_id = js ''7'', msg_author_username = js ''carol'', msg_author_bot = False,
      msg_channel = Thread example_thread\<rparr>"

text \<open>A plain message of a person in the thread.\<close>

definition plain_message :: Message where
  "plain_message =
     \<lparr>msg_id = js ''102'', msg_content = js ''any news?'',
      msg_author_id = js ''7'', msg_author_username = js ''carol'', msg_author_bot = False,
      msg_channel = Thread example_thread\<rparr>"

text \<open>
  The linked pair when the discussion has no comment yet and carol has written the quoting
  message in the thread; and that state once the trigger for the quoting message has
  returned and she has written the plain message after it.
\<close>

definition quoted_world :: world where
  "quoted_world =
     linked_world\<lparr>gh_comments := (\<lambda>n. []),
       dc_messages := (\<lambda>t. if t = js ''42'' then [quoting_message, example_seed] else [])\<rparr>"

definition answered_world :: world where
  "answered_world =
     (snd (messageCreate example_config quoting_message quoted_world))
       \<lparr>dc_messages :=
          (\<lambda>t. if t = js ''42'' then [plain_message, quoting_message, example_seed] else [])\<rparr>"

text \<open>
  A discussion whose marker names a thread that Discord does not have, and a thread that
  no discussion names.
\<close>

definition dangling_discussion :: GithubDiscussion where
  "dangling_discussion =
     \<lparr>d_id = js ''D_2'', d_number = 2, d_title = js ''Old topic'',
      d_body = js ''gone <!-- Discord:77 -->'', d_author_login = js ''dave'',
      d_category_name = Some (js ''General'')\<rparr>"

definition other_thread :: ThreadChannel where
  "other_thread =
     \<lparr>t_id = js ''43'', t_name = js ''Another topic'',
      t_parentId = Some (js ''1375527112521552003''), t_guild_id = js ''5''\<rparr>"

text \<open>
  A discussion titled like the thread of the examples that mentions its id without any
  marker, in a state whose cache lists it.
\<close>

definition mentioning_discussion :: GithubDiscussion where
  "mentioning_discussion =
     \<lparr>d_id = js ''D_3'', d_number = 3, d_title = js ''Bug: crash on startup'',
      d_body = js ''see 42'', d_author_login = js ''erin'', d_category_name = None\<rparr>"

definition mentioning_world :: world where
  "mentioning_world = linked_world\<lparr>discussionCache := Some [mentioning_discussion]\<rparr>"

section \<open>Basic facts\<close>

lemma length_js [simp]: "length (js s) = length s"
  by (simp add: js_def)

lemma length_messagePrefix:
  "length (messagePrefix cfg author number) =
     64 + length author + length (GITHUB_OWNER cfg) + length (GITHUB_REPO cfg)
     + length (numberToString number)"
  by (simp add: messagePrefix_def speech_balloon_def newline_def)

lemma length_messagePrefix_legacy:
  "length (messagePrefix_legacy cfg author number) =
     66 + length author + length (GITHUB_OWNER cfg) + length (GITHUB_REPO cfg)
     + length (numberToString number)"
  by (simp add: messagePrefix_legacy_def speech_balloon_legacy_def newline_def)



lemma length_continued: "length continued = 15"
  by (simp add: continued_def newline_def)

lemma substring_0: "substring s 0 b = take (nat b) s"
  by (auto simp: substring_def Let_def min_def max_def)


lemma processedBody_Nil: "processedBody [] = []"
  by (simp add: processedBody_def match_here_def markdown_image_def lit_def)

section \<open>Runs in which every collaborator call is answered\<close>

lemma emit_simps [simp]:
  "trace (emit e w) = trace w @ [e]"
  "faults (emit e w) = faults w"
  "discussionCache (emit e w) = discussionCache w"
  "gh_discussions (emit e w) = gh_discussions w"
  "gh_comments (emit e w) = gh_comments w"
  "dc_messages (emit e w) = dc_messages w"
  "dc_threads (emit e w) = dc_threads w"
  "gh_no_data (emit e w) = gh_no_data w"
  "gh_repository_id (emit e w) = gh_repository_id w"
  "REPO_CATEGORY_ID (emit e w) = REPO_CATEGORY_ID w"
  "next_id (emit e w) = next_id w"
  by (simp_all add: emit_def)

lemmas run_defs = await_def ret_def throw_def catch_def logger_def call_def promise_all_def

lemma listDiscordMessages_ok:
  "faults w = Map.empty \<Longrightarrow>
   listDiscordMessages cfg thread w =
     (Inr (drop 1 (rev (map (threadMessage cfg) (take 50 (dc_messages w (t_id thread)))))),
      emit (Fetch_messages (t_id thread)) w)"
  by (simp add: listDiscordMessages_def fetch_messages_def run_defs)

lemma comment_pages_ok:
  "faults w = Map.empty \<Longrightarrow>
   \<exists>evs. comment_pages discussion comments offset w =
     (Inr (comments @ drop (case offset of None \<Rightarrow> 0 | Some k \<Rightarrow> k)
                        (gh_comments w (d_number discussion))),
      w\<lparr>trace := trace w @ Query_comments (d_number discussion) offset # evs\<rparr>)
     \<and> filter is_write evs = [] \<and> filter is_log evs = []"
proof (induction discussion comments offset w rule: comment_pages.induct)
  case (1 discussion comments offset w)
  let ?start = "case offset of None \<Rightarrow> 0 | Some k \<Rightarrow> k"
  let ?all = "gh_comments w (d_number discussion)"
  let ?w1 = "w\<lparr>trace := trace w @ [Query_comments (d_number discussion) offset]\<rparr>"
  have q: "query_comments (d_number discussion) offset w =
      (Inr (take 100 (drop ?start ?all), ?start + 100 < length ?all,
            ?start + length (take 100 (drop ?start ?all))), ?w1)"
    using 1 by (simp add: query_comments_def run_defs emit_def Let_def)
  show ?case
  proof (cases "?start + 100 < length ?all")
    case True
    then have len: "?start + length (take 100 (drop ?start ?all)) = ?start + 100"
      by simp
    have f1: "faults ?w1 = Map.empty" using 1 by simp
    from "1.IH" [OF q [symmetric] refl refl refl True f1] len
    obtain evs where evs: "comment_pages discussion (comments @ take 100 (drop ?start ?all))
          (Some (?start + 100)) ?w1 =
        (Inr ((comments @ take 100 (drop ?start ?all)) @ drop (?start + 100) ?all),
         ?w1\<lparr>trace := trace ?w1 @ Query_comments (d_number discussion) (Some (?start + 100)) # evs\<rparr>)"
      "filter is_write evs = []" "filter is_log evs = []"
      by auto
    have td: "take 100 (drop ?start ?all) @ drop (?start + 100) ?all = drop ?start ?all"
      by (metis add.commute append_take_drop_id drop_drop)
    show ?thesis
      apply (subst comment_pages.simps)
      apply (simp only: q)
      using True evs td len
      apply (rule_tac x = "Query_comments (d_number discussion) (Some (?start + 100)) # evs" in exI)
      apply simp
      done
  next
    case False
    then have "take 100 (drop ?start ?all) = drop ?start ?all"
      by simp
    with False show ?thesis
      apply (subst comment_pages.simps)
      apply (simp only: q)
      apply (rule_tac x = "[]" in exI)
      apply simp
      done
  qed
qed


lemma listGithubComments_ok:
  assumes "faults w = Map.empty"
  shows "\<exists>w' evs. listGithubComments discussion w = (Inr (gh_comments w (d_number discussion)), w')
     \<and> faults w' = Map.empty
     \<and> trace w' = trace w @ Query_comments (d_number discussion) None # evs
     \<and> filter is_write evs = [] \<and> filter is_log evs = []"
proof -
  from comment_pages_ok [OF assms, of discussion "[]" None]
  obtain evs where "comment_pages discussion [] None w =
      (Inr (gh_comments w (d_number discussion)),
       w\<lparr>trace := trace w @ Query_comments (d_number discussion) None # evs\<rparr>)"
    "filter is_write evs = []" "filter is_log evs = []"
    by auto
  with assms show ?thesis
    by (simp add: listGithubComments_def)
qed

lemma for_idx_trace:
  assumes body: "\<And>x w. faults w = Map.empty \<Longrightarrow>
      \<exists>w'. body x w = (Inr (), w') \<and> faults w' = Map.empty \<and> trace w' = trace w @ ev x"
  shows "faults w = Map.empty \<Longrightarrow>
      \<exists>w'. for_idx idx xs body w = (Inr (), w') \<and> faults w' = Map.empty
         \<and> trace w' = trace w @ concat (map ev (drop idx xs))"
proof (induction "length xs - idx" arbitrary: idx w)
  case 0
  then show ?case
    by (subst for_idx.simps) simp
next
  case (Suc n)
  then have lt: "idx < length xs"
    by simp
  from body [OF Suc.prems] obtain w1 where w1: "body (xs ! idx) w = (Inr (), w1)"
      "faults w1 = Map.empty" "trace w1 = trace w @ ev (xs ! idx)"
    by blast
  have "n = length xs - Suc idx"
    using Suc.hyps(2) by simp
  from Suc.hyps(1) [OF this w1(2)] obtain w' where w': "for_idx (Suc idx) xs body w1 = (Inr (), w')"
      "faults w' = Map.empty" "trace w' = trace w1 @ concat (map ev (drop (Suc idx) xs))"
    by blast
  have "drop idx xs = xs ! idx # drop (Suc idx) xs"
    using lt by (simp add: Cons_nth_drop_Suc)
  with w1 w' lt show ?case
    by (subst for_idx.simps) simp
qed

lemma pushDiscordMessage_ok:
  "faults w = Map.empty \<Longrightarrow>
   \<exists>w'. pushDiscordMessage cfg thread comment discussion w = (Inr (), w')
      \<and> faults w' = Map.empty
      \<and> trace w' = trace w @
           [Log Info (js ''[Discord] Sending message to Discord thread '' @ t_id thread
              @ js '': '' @ c_body comment),
            Thread_send (t_id thread)
              (makeDiscordMessage cfg (c_author_login comment) (d_number discussion)
                 (c_body comment))]"
  by (simp add: pushDiscordMessage_def thread_send_def post_message_def run_defs)

lemma pushGithubComment_ok:
  "faults w = Map.empty \<Longrightarrow>
   \<exists>w'. pushGithubComment cfg thread message discussion w = (Inr (), w')
      \<and> faults w' = Map.empty
      \<and> trace w' = trace w @
           [Log Info (js ''[Github] Sending comment to GitHub discussion ''
              @ numberToString (d_number discussion) @ js '': '' @ m_message message),
            Add_discussion_comment (d_id discussion)
              (makeGithubComment (m_message message) (m_user message)
                 (message_url thread (m_id message)))]"
  by (simp add: pushGithubComment_def Let_def run_defs)

lemma pushDiscordMessage_legacy_ok:
  "faults w = Map.empty \<Longrightarrow> \<not> DRY_RUN cfg \<Longrightarrow>
   \<exists>w'. pushDiscordMessage_legacy cfg thread comment discussion w = (Inr (), w')
      \<and> faults w' = Map.empty
      \<and> trace w' = trace w @
           [Log Console (js ''Sending message to Discord thread '' @ t_id thread
              @ js '': '' @ c_body comment),
            Thread_send (t_id thread)
              (makeDiscordMessage_legacy cfg (c_author_login comment) (d_number discussion)
                 (c_body comment))]"
  by (simp add: pushDiscordMessage_legacy_def thread_send_def post_message_def run_defs)

lemma pushGithubComment_legacy_ok:
  "faults w = Map.empty \<Longrightarrow> \<not> DRY_RUN cfg \<Longrightarrow>
   \<exists>w'. pushGithubComment_legacy cfg thread message discussion w = (Inr (), w')
      \<and> faults w' = Map.empty
      \<and> trace w' = trace w @
           [Log Console (js ''Sending comment to GitHub discussion ''
              @ numberToString (d_number discussion) @ js '': '' @ m_message message),
            Add_discussion_comment (d_id discussion)
              (makeGithubComment_legacy (m_message message) (m_user message)
                 (message_url thread (m_id message)))]"
  by (simp add: pushGithubComment_legacy_def Let_def run_defs)

lemma writes_log_write:
  "(\<And>x. is_write (W x)) \<Longrightarrow>
   filter is_write (concat (map (\<lambda>x. [Log l (M x), W x]) xs)) = map W xs"
  by (induction xs) simp_all

lemma reads_ok:
  assumes nf: "faults w = Map.empty"
    and tm_def: "tm = drop 1 (rev (map (threadMessage cfg) (take 50 (dc_messages w (t_id thread)))))"
    and dm_def: "dm = gh_comments w (d_number discussion)"
  shows "\<exists>w' evs. promise_all (listDiscordMessages cfg thread) (listGithubComments discussion) w
        = (Inr (tm, dm), w')
     \<and> faults w' = Map.empty
     \<and> trace w' = trace w @ Fetch_messages (t_id thread)
          # Query_comments (d_number discussion) None # evs
     \<and> filter is_write evs = [] \<and> filter is_log evs = []"
proof -
  have f1: "faults (emit (Fetch_messages (t_id thread)) w) = Map.empty"
    using nf by simp
  from listGithubComments_ok [OF f1, of discussion]
  obtain w' evs where r2: "listGithubComments discussion (emit (Fetch_messages (t_id thread)) w)
        = (Inr dm, w')"
      "faults w' = Map.empty"
      "trace w' = trace w @ Fetch_messages (t_id thread)
          # Query_comments (d_number discussion) None # evs"
      "filter is_write evs = []" "filter is_log evs = []"
    by (auto simp: dm_def)
  show ?thesis
    using r2 by (simp add: promise_all_def listDiscordMessages_ok [OF nf] tm_def)
qed

lemma syncMessages_run:
  assumes nf: "faults w = Map.empty" and live: "\<not> DRY_RUN cfg"
    and tm_def: "tm = drop 1 (rev (map (threadMessage cfg) (take 50 (dc_messages w (t_id thread)))))"
    and dm_def: "dm = gh_comments w (d_number discussion)"
  shows "fst (syncMessages cfg thread discussion w) = Inr ()
    \<and> writes_of (syncMessages cfg thread discussion) w =
        (if length tm < length dm
         then map (\<lambda>c. Thread_send (t_id thread)
                    (makeDiscordMessage cfg (c_author_login c) (d_number discussion) (c_body c)))
                (drop (length tm) dm)
         else map (\<lambda>m. Add_discussion_comment (d_id discussion)
                    (makeGithubComment (m_message m) (m_user m) (message_url thread (m_id m))))
                (drop (length dm) tm))"
proof -
  let ?l0 = "Log Info (js ''Loading messages from thread '' @ t_id thread
              @ js '' & discussion '' @ d_id discussion)"
  have f0: "faults (emit ?l0 w) = Map.empty"
    using nf by simp
  from reads_ok [OF f0, of tm cfg thread dm discussion]
  obtain w2 evs where pa: "promise_all (listDiscordMessages cfg thread)
        (listGithubComments discussion) (emit ?l0 w) = (Inr (tm, dm), w2)"
    and f2: "faults w2 = Map.empty"
    and t2: "trace w2 = trace w @ ?l0 # Fetch_messages (t_id thread)
          # Query_comments (d_number discussion) None # evs"
    and evs: "filter is_write evs = []"
    by (auto simp: tm_def dm_def)
  consider (eq) "length tm = length dm" | (lt) "length tm < length dm" | (gt) "length dm < length tm"
    by linarith
  then show ?thesis
  proof cases
    case eq
    then show ?thesis
      using evs t2
      by (simp add: syncMessages_def await_def logger_def pa writes_of_def events_of_def)
  next
    case lt
    let ?l3 = "Log Info (js ''Syncing messages from GitHub to Discord'')"
    have f3: "faults (emit ?l3 w2) = Map.empty"
      using f2 by simp
    from for_idx_trace [where body = "\<lambda>message. pushDiscordMessage cfg thread message discussion"
        and w = "emit ?l3 w2" and idx = "length tm" and xs = dm, OF pushDiscordMessage_ok f3]
    obtain w' where w': "for_idx (length tm) dm
          (\<lambda>message. pushDiscordMessage cfg thread message discussion) (emit ?l3 w2) = (Inr (), w')"
      "trace w' = trace (emit ?l3 w2) @ concat (map (\<lambda>comment.
           [Log Info (js ''[Discord] Sending message to Discord thread '' @ t_id thread
              @ js '': '' @ c_body comment),
            Thread_send (t_id thread)
              (makeDiscordMessage cfg (c_author_login comment) (d_number discussion)
                 (c_body comment))]) (drop (length tm) dm))"
      by blast
    have run: "syncMessages cfg thread discussion w = (Inr (), w')"
      using lt live by (simp add: syncMessages_def await_def logger_def pa w'(1))
    show ?thesis
      using lt evs
      by (simp add: run writes_of_def events_of_def w'(2) t2 writes_log_write)
  next
    case gt
    let ?l3 = "Log Info (js ''Syncing messages from Discord to GitHub'')"
    have f3: "faults (emit ?l3 w2) = Map.empty"
      using f2 by simp
    from for_idx_trace [where body = "\<lambda>message. pushGithubComment cfg thread message discussion"
        and w = "emit ?l3 w2" and idx = "length dm" and xs = tm, OF pushGithubComment_ok f3]
    obtain w' where w': "for_idx (length dm) tm
          (\<lambda>message. pushGithubComment cfg thread message discussion) (emit ?l3 w2) = (Inr (), w')"
      "trace w' = trace (emit ?l3 w2) @ concat (map (\<lambda>message.
           [Log Info (js ''[Github] Sending comment to GitHub discussion ''
              @ numberToString (d_number discussion) @ js '': '' @ m_message message),
            Add_discussion_comment (d_id discussion)
              (makeGithubComment (m_message message) (m_user message)
                 (message_url thread (m_id message)))]) (drop (length dm) tm))"
      by blast
    have run: "syncMessages cfg thread discussion w = (Inr (), w')"
      using gt live by (simp add: syncMessages_def await_def logger_def pa w'(1))
    show ?thesis
      using gt evs
      by (simp add: run writes_of_def events_of_def w'(2) t2 writes_log_write)
  qed
qed


lemma syncMessages_legacy_run:
  assumes nf: "faults w = Map.empty" and live: "\<not> DRY_RUN cfg"
    and tm_def: "tm = drop 1 (rev (map (threadMessage cfg) (take 50 (dc_messages w (t_id thread)))))"
    and dm_def: "dm = gh_comments w (d_number discussion)"
  shows "fst (syncMessages_legacy cfg thread discussion w) = Inr ()
    \<and> writes_of (syncMessages_legacy cfg thread discussion) w =
        (if length tm < length dm
         then map (\<lambda>c. Thread_send (t_id thread)
                    (makeDiscordMessage_legacy cfg (c_author_login c) (d_number discussion)
                       (c_body c)))
                (drop (length tm) dm)
         else map (\<lambda>m. Add_discussion_comment (d_id discussion)
                    (makeGithubComment_legacy (m_message m) (m_user m)
                       (message_url thread (m_id m))))
                (drop (length dm) tm))"
proof -
  have f1: "faults (emit (Fetch_messages (t_id thread)) w) = Map.empty"
    using nf by simp
  from listGithubComments_ok [OF f1, of discussion]
  obtain w2 evs where r2: "listGithubComments discussion (emit (Fetch_messages (t_id thread)) w)
        = (Inr dm, w2)"
    and f2: "faults w2 = Map.empty"
    and t2: "trace w2 = trace w @ Fetch_messages (t_id thread)
          # Query_comments (d_number discussion) None # evs"
    and evs: "filter is_write evs = []"
    by (auto simp: dm_def)
  have r1: "listDiscordMessages cfg thread w = (Inr tm, emit (Fetch_messages (t_id thread)) w)"
    by (simp add: listDiscordMessages_ok [OF nf] tm_def)
  show ?thesis
  proof (cases "length tm < length dm")
    case True
    from for_idx_trace [where body = "\<lambda>message. pushDiscordMessage_legacy cfg thread message discussion"
        and w = w2 and idx = "length tm" and xs = dm, OF pushDiscordMessage_legacy_ok f2] live
    obtain w' where w': "for_idx (length tm) dm
          (\<lambda>message. pushDiscordMessage_legacy cfg thread message discussion) w2 = (Inr (), w')"
      "trace w' = trace w2 @ concat (map (\<lambda>comment.
           [Log Console (js ''Sending message to Discord thread '' @ t_id thread
              @ js '': '' @ c_body comment),
            Thread_send (t_id thread)
              (makeDiscordMessage_legacy cfg (c_author_login comment) (d_number discussion)
                 (c_body comment))]) (drop (length tm) dm))"
      by blast
    have run: "syncMessages_legacy cfg thread discussion w = (Inr (), w')"
      using True by (simp add: syncMessages_legacy_def await_def r1 r2 w'(1))
    show ?thesis
      using True evs
      by (simp add: run writes_of_def events_of_def w'(2) t2 writes_log_write)
  next
    case False
    from for_idx_trace [where body = "\<lambda>message. pushGithubComment_legacy cfg thread message discussion"
        and w = w2 and idx = "length dm" and xs = tm, OF pushGithubComment_legacy_ok f2] live
    obtain w' where w': "for_idx (length dm) tm
          (\<lambda>message. pushGithubComment_legacy cfg thread message discussion) w2 = (Inr (), w')"
      "trace w' = trace w2 @ concat (map (\<lambda>message.
           [Log Console (js ''Sending comment to GitHub discussion ''
              @ numberToString (d_number discussion) @ js '': '' @ m_message message),
            Add_discussion_comment (d_id discussion)
              (makeGithubComment_legacy (m_message message) (m_user message)
                 (message_url thread (m_id message)))]) (drop (length dm) tm))"
      by blast
    have run: "syncMessages_legacy cfg thread discussion w = (Inr (), w')"
      using False by (simp add: syncMessages_legacy_def await_def r1 r2 w'(1))
    show ?thesis
      using False evs
      by (simp add: run writes_of_def events_of_def w'(2) t2 writes_log_write)
  qed
qed

section \<open>Dry runs of the catch-up step\<close>







section \<open>Properties of the state that the program keeps\<close>

lemma stable_ret: "stable I (ret a)"
  by (simp add: stable_def ret_def)

lemma stable_throw: "stable I (throw e)"
  by (simp add: stable_def throw_def)

lemma stable_logger: "(\<And>e w. I w \<Longrightarrow> I (emit e w)) \<Longrightarrow> stable I (logger l message)"
  by (simp add: stable_def logger_def)

lemma stable_call:
  "(\<And>e w. I w \<Longrightarrow> I (emit e w)) \<Longrightarrow> (\<And>w. I w \<Longrightarrow> I (snd (effect w))) \<Longrightarrow>
   stable I (call e effect)"
  by (auto simp: stable_def call_def split: option.splits prod.splits) (metis snd_conv)

lemma stable_await: "stable I m \<Longrightarrow> (\<And>a. stable I (f a)) \<Longrightarrow> stable I (await m f)"
  by (auto simp: stable_def await_def split: prod.splits sum.splits)

lemma stable_catch: "stable I m \<Longrightarrow> (\<And>e. stable I (h e)) \<Longrightarrow> stable I (catch m h)"
  by (auto simp: stable_def catch_def split: prod.splits sum.splits)

lemma stable_promise_all: "stable I m1 \<Longrightarrow> stable I m2 \<Longrightarrow> stable I (promise_all m1 m2)"
  by (auto simp: stable_def promise_all_def split: prod.splits sum.splits)

lemma stable_if: "(c \<Longrightarrow> stable I a) \<Longrightarrow> (\<not> c \<Longrightarrow> stable I b) \<Longrightarrow> stable I (if c then a else b)"
  by simp

lemma stable_case_option:
  "stable I a \<Longrightarrow> (\<And>y. stable I (b y)) \<Longrightarrow> stable I (case x of None \<Rightarrow> a | Some y \<Rightarrow> b y)"
  by (cases x) simp_all

lemma stable_case_list:
  "stable I a \<Longrightarrow> (\<And>y ys. stable I (b y ys)) \<Longrightarrow> stable I (case x of [] \<Rightarrow> a | y # ys \<Rightarrow> b y ys)"
  by (cases x) simp_all

lemma stable_case_prod: "(\<And>a b. stable I (f a b)) \<Longrightarrow> stable I (case p of (a, b) \<Rightarrow> f a b)"
  by (cases p) simp

lemma stable_case_channel:
  "(\<And>t. stable I (a t)) \<Longrightarrow> (\<And>c. stable I (b c)) \<Longrightarrow>
   stable I (case x of Thread t \<Rightarrow> a t | OtherChannel c \<Rightarrow> b c)"
  by (cases x) simp_all

lemma stable_for_idx:
  assumes "\<And>x. stable I (body x)"
  shows "stable I (for_idx idx xs body)"
proof -
  have "I w \<Longrightarrow> I (snd (for_idx idx xs body w))" for w
  proof (induction "length xs - idx" arbitrary: idx w)
    case 0
    then show ?case
      by (subst for_idx.simps) simp
  next
    case (Suc n)
    then have lt: "idx < length xs"
      by simp
    have n: "n = length xs - Suc idx"
      using Suc.hyps(2) by simp
    obtain r w1 where b: "body (xs ! idx) w = (r, w1)"
      by (cases "body (xs ! idx) w")
    with assms Suc.prems have I1: "I w1"
      by (metis snd_conv stable_def)
    show ?case
      using lt b I1 Suc.hyps(1) [OF n I1]
      by (subst for_idx.simps) (simp split: sum.splits)
  qed
  then show ?thesis
    by (simp add: stable_def)
qed

lemma stable_comment_pages:
  assumes "\<And>e w. I w \<Longrightarrow> I (emit e w)"
  shows "stable I (comment_pages discussion comments offset)"
proof -
  have q: "I w \<Longrightarrow> I (snd (query_comments n off w))" for w n off
    using assms by (auto simp: query_comments_def call_def Let_def split: option.splits)
  have "I w \<Longrightarrow> I (snd (comment_pages discussion comments offset w))" for w
  proof (induction discussion comments offset w rule: comment_pages.induct)
    case (1 discussion comments offset w)
    obtain r w1 where qq: "query_comments (d_number discussion) offset w = (r, w1)"
      by (cases "query_comments (d_number discussion) offset w")
    with q [OF "1.prems", of "d_number discussion" offset] have I1: "I w1"
      by simp
    show ?case
    proof (cases r)
      case (Inl e)
      with qq I1 show ?thesis
        by (subst comment_pages.simps) simp
    next
      case (Inr b)
      obtain nodes hasNextPage endCursor where b: "b = (nodes, hasNextPage, endCursor)"
        by (cases b) auto
      show ?thesis
      proof (cases hasNextPage)
        case True
        from "1.IH" [OF qq [symmetric] Inr b [symmetric] refl True I1]
        show ?thesis
          using qq Inr b True by (subst comment_pages.simps) simp
      next
        case False
        with qq Inr b I1 show ?thesis
          by (subst comment_pages.simps) simp
      qed
    qed
  qed
  then show ?thesis
    by (simp add: stable_def)
qed

lemmas stable_intros =
  stable_ret stable_throw stable_logger stable_call stable_await stable_catch stable_promise_all
  stable_if stable_case_option stable_case_list stable_case_prod stable_case_channel
  stable_for_idx stable_comment_pages

text \<open>The cache, once populated.\<close>

lemma cache_emit: "discussionCache w = Some ds \<Longrightarrow> discussionCache (emit e w) = Some ds"
  by simp

lemma stable_cache_listGithubDiscussions:
  "stable (\<lambda>w. discussionCache w = Some ds) listGithubDiscussions"
  by (simp add: stable_def listGithubDiscussions_def)

lemma stable_cache_syncMessages:
  "stable (\<lambda>w. discussionCache w = Some ds) (syncMessages cfg thread discussion)"
  unfolding syncMessages_def listDiscordMessages_def fetch_messages_def listGithubComments_def
    pushDiscordMessage_def pushGithubComment_def thread_send_def Let_def
  by (intro stable_intros) (simp_all add: post_message_def)


lemma stable_cache_createDiscussion:
  "stable (\<lambda>w. discussionCache w = Some ds) (createDiscussion cfg thread message)"
  unfolding createDiscussion_def getRepositoryId_def Let_def
  by (intro stable_intros) (simp_all add: stable_def call_def split: option.splits)

lemma stable_cache_updateDiscussion:
  "stable (\<lambda>w. discussionCache w = Some ds) (updateDiscussion discussion discordId)"
  unfolding updateDiscussion_def
  by (intro stable_intros) simp_all

lemma stable_cache_createThread:
  "stable (\<lambda>w. discussionCache w = Some ds) (createThread cfg author number title body)"
  unfolding createThread_def
  by (intro stable_intros) (simp_all add: post_message_def Let_def)

lemma stable_cache_syncThreadOnGitHub:
  "stable (\<lambda>w. discussionCache w = Some ds) (syncThreadOnGitHub cfg thread)"
  unfolding syncThreadOnGitHub_def findThreadOnGitHub_def fetch_messages_def
  by (intro stable_intros stable_cache_listGithubDiscussions stable_cache_syncMessages
        stable_cache_createDiscussion) simp_all

lemma stable_cache_syncDiscussionOnDiscord:
  "stable (\<lambda>w. discussionCache w = Some ds) (syncDiscussionOnDiscord cfg discussion)"
  unfolding syncDiscussionOnDiscord_def findDiscussionOnDiscord_def listDiscordThreads_def Let_def
  by (intro stable_intros stable_cache_syncMessages stable_cache_createThread
        stable_cache_updateDiscussion) simp_all

lemma stable_cache_webhook:
  "stable (\<lambda>w. discussionCache w = Some ds) (webhook cfg req)"
  unfolding webhook_def
  by (intro stable_intros stable_cache_syncDiscussionOnDiscord) simp_all

lemma stable_cache_threadCreate:
  "stable (\<lambda>w. discussionCache w = Some ds) (threadCreate cfg thread)"
  unfolding threadCreate_def
  by (intro stable_intros)

lemma stable_cache_messageCreate:
  "stable (\<lambda>w. discussionCache w = Some ds) (messageCreate cfg message)"
  unfolding messageCreate_def message_reply_def
  by (intro stable_intros stable_cache_syncThreadOnGitHub)
     (simp_all add: post_message_def split: channel.splits)

lemma perform_keeps_cache:
  "discussionCache w = Some ds \<Longrightarrow> discussionCache (perform cfg op w) = Some ds"
  using stable_cache_webhook [of ds cfg] stable_cache_threadCreate [of ds cfg]
    stable_cache_messageCreate [of ds cfg] stable_cache_syncThreadOnGitHub [of ds cfg]
    stable_cache_syncDiscussionOnDiscord [of ds cfg] stable_cache_createDiscussion [of ds cfg]
    stable_cache_updateDiscussion [of ds]
  by (cases op) (simp_all add: stable_def)

lemma perform_all_keeps_cache:
  "discussionCache w = Some ds \<Longrightarrow> discussionCache (perform_all cfg ops w) = Some ds"
  unfolding perform_all_def
  by (induction ops arbitrary: w) (simp_all add: perform_keeps_cache)

lemma listGithubDiscussions_populates:
  "listGithubDiscussions w0 = (Inr snapshot, w1) \<Longrightarrow> discussionCache w1 = Some snapshot"
  by (auto simp: listGithubDiscussions_def run_defs split: option.splits if_splits)

lemma listGithubDiscussions_cached:
  "discussionCache w = Some ds \<Longrightarrow> listGithubDiscussions w = (Inr ds, w)"
  by (simp add: listGithubDiscussions_def)

section \<open>What the patterns match\<close>

lemma fold_capture_None [simp]: "fold capture cs (caps, None) = (caps, None)"
  by (induction cs) simp_all

lemma fold_capture_Some [simp]: "fold capture cs (caps, Some b) = (caps, Some (b @ cs))"
  by (induction cs arbitrary: b) simp_all

lemma lit_Nil: "lit [] = []"
  by (simp add: lit_def)

lemma lit_Cons: "lit (c # s) = Chr (is_char c) # lit s"
  by (simp add: lit_def)

lemma js_Nil [simp]: "js [] = []"
  by (simp add: js_def)

lemma js_Cons: "js (c # s) = of_char c # js s"
  by (simp add: js_def)

lemma js_append: "js (s @ t) = js s @ js t"
  by (simp add: js_def)

lemma rmatch_lit:
  "rmatch (lit s @ r) g inp =
     (if prefix (js s) inp then rmatch r (fold capture (js s) g) (drop (length s) inp) else None)"
proof (induction s arbitrary: g inp)
  case Nil
  then show ?case by (simp add: lit_Nil)
next
  case (Cons c s)
  show ?case
  proof (cases inp)
    case Nil
    then show ?thesis by (simp add: js_Cons lit_Cons)
  next
    case (Cons a as)
    with Cons.IH show ?thesis
      by (simp add: js_Cons is_char_def lit_Cons)
  qed
qed

lemma rmatch_Star_then:
  assumes "\<And>g c cs. P c \<Longrightarrow> rmatch r g (c # cs) = None"
  shows "rmatch (Star P # r) g s = rmatch r (fold capture (takeWhile P s) g) (dropWhile P s)"
proof (induction s arbitrary: g)
  case Nil
  then show ?case by simp
next
  case (Cons c cs)
  then show ?case
    using assms by (simp split: option.splits)
qed

lemma rmatch_Plus_then:
  assumes "\<And>g c cs. P c \<Longrightarrow> rmatch r g (c # cs) = None"
  shows "rmatch (Plus P # r) g s =
    (case s of [] \<Rightarrow> None
     | c # cs \<Rightarrow> if P c then rmatch r (fold capture (takeWhile P s) g) (dropWhile P s) else None)"
  using rmatch_Star_then [of P r, OF assms]
  by (cases s) simp_all

lemma rmatch_lit_end:
  "rmatch (lit s) g inp =
     (if prefix (js s) inp then Some (fst (fold capture (js s) g), drop (length s) inp) else None)"
  using rmatch_lit [of s "[]" g inp] by simp

lemma match_here_marker:
  "match_here marker_pattern s =
     (if prefix (js ''<!-- Discord:'') s
         \<and> takeWhile digit (drop 13 s) \<noteq> []
         \<and> prefix (js '' -->'') (dropWhile digit (drop 13 s))
      then Some ([takeWhile digit (drop 13 s)], drop 4 (dropWhile digit (drop 13 s)))
      else None)"
proof -
  have close: "rmatch (Close # lit '' -->'') (caps, Some b) u =
      (if prefix (js '' -->'') u then Some (caps @ [b], drop 4 u) else None)" for caps b u
    by (simp add: rmatch_lit_end eval_nat_numeral)
  have no: "rmatch (Close # lit '' -->'') g (c # cs) = None" if "digit c" for g c cs
    using that by (simp add: is_char_def digit_def lit_Cons)
  have plus: "rmatch (Plus digit # Close # lit '' -->'') ([], Some []) t =
      (if takeWhile digit t \<noteq> [] \<and> prefix (js '' -->'') (dropWhile digit t)
       then Some ([takeWhile digit t], drop 4 (dropWhile digit t))
       else None)" for t
  proof (cases t)
    case Nil
    then show ?thesis by simp
  next
    case (Cons c cs)
    show ?thesis
    proof (cases "digit c")
      case True
      have "rmatch (Plus digit # Close # lit '' -->'') ([], Some []) t =
          rmatch (Close # lit '' -->'') ([], Some (c # takeWhile digit cs)) (dropWhile digit cs)"
        using True Cons by (simp add: rmatch_Star_then [OF no])
      with True Cons show ?thesis
        by (simp only: close) simp
    next
      case False
      with Cons show ?thesis
        by simp
    qed
  qed
  have "match_here marker_pattern s =
      (if prefix (js ''<!-- Discord:'') s
       then rmatch (Plus digit # Close # lit '' -->'') ([], Some []) (drop 13 s) else None)"
    unfolding match_here_def marker_pattern_def rmatch_lit
    by (simp add: eval_nat_numeral)
  then show ?thesis
    by (simp add: plus)
qed

lemma search_Some:
  "search re s = Some (k, caps, rest) \<Longrightarrow>
   k \<le> length s \<and> match_here re (drop k s) = Some (caps, rest)"
proof (induction s arbitrary: k)
  case Nil
  then show ?case
    by (auto split: option.splits)
next
  case (Cons a s)
  show ?case
  proof (cases "match_here re (a # s)")
    case None
    with Cons.prems obtain k' where k': "search re s = Some (k', caps, rest)" "k = Suc k'"
      by (auto split: option.splits)
    from Cons.IH [OF k'(1)] k'(2) show ?thesis
      by simp
  next
    case (Some m)
    with Cons.prems show ?thesis
      by (auto split: option.splits)
  qed
qed

lemma search_None: "search re s = None \<longleftrightarrow> (\<forall>k \<le> length s. match_here re (drop k s) = None)"
proof (induction s)
  case Nil
  then show ?case
    by (auto split: option.splits)
next
  case (Cons a s)
  have "(\<forall>k \<le> length (a # s). match_here re (drop k (a # s)) = None) \<longleftrightarrow>
      match_here re (a # s) = None \<and> (\<forall>k \<le> length s. match_here re (drop k s) = None)"
    by (auto simp: drop_Cons split: nat.splits)
  with Cons.IH show ?case
    by (auto split: option.splits)
qed

lemma link_marker_matches:
  assumes "i \<noteq> []" and "list_all digit i"
  shows "match_here marker_pattern (link_marker i @ ss) = Some ([i], ss)"
proof -
  have d13: "drop 13 (link_marker i @ ss) = i @ js '' -->'' @ ss"
    by (simp add: link_marker_def)
  have nd: "\<not> digit (of_char CHR '' '')"
    by (simp add: digit_def)
  have tw: "takeWhile digit (i @ js '' -->'' @ ss) = i"
    using assms(2) nd by (simp add: takeWhile_append2 list_all_iff js_Cons)
  have dw: "dropWhile digit (i @ js '' -->'' @ ss) = js '' -->'' @ ss"
    using assms(2) nd by (simp add: dropWhile_append2 list_all_iff js_Cons)
  have pre: "prefix (js ''<!-- Discord:'') (link_marker i @ ss)"
    by (simp add: link_marker_def)
  show ?thesis
    unfolding match_here_marker d13 tw dw
    using assms(1) pre by simp
qed

lemma match_here_marker_Some:
  assumes "match_here marker_pattern s = Some (caps, rest)"
  shows "\<exists>i. caps = [i] \<and> i \<noteq> [] \<and> list_all digit i \<and> s = link_marker i @ rest"
proof -
  let ?t = "drop 13 s"
  from assms have p: "prefix (js ''<!-- Discord:'') s" "takeWhile digit ?t \<noteq> []"
      "prefix (js '' -->'') (dropWhile digit ?t)"
      "caps = [takeWhile digit ?t]" "rest = drop 4 (dropWhile digit ?t)"
    by (auto simp: match_here_marker split: if_splits)
  from p(1) have s: "s = js ''<!-- Discord:'' @ ?t"
    by (auto simp: prefix_def)
  from p(3) have d: "dropWhile digit ?t = js '' -->'' @ rest"
    by (auto simp: prefix_def p(5))
  have "?t = takeWhile digit ?t @ dropWhile digit ?t"
    by simp
  with s d have "s = link_marker (takeWhile digit ?t) @ rest"
    by (simp add: link_marker_def)
  moreover have "list_all digit (takeWhile digit ?t)"
    by (simp add: list_all_iff) (meson set_takeWhileD)
  ultimately show ?thesis
    using p(2,4) by blast
qed

lemma marker_id_Some:
  assumes "marker_id body = Some i"
  shows "i \<noteq> [] \<and> list_all digit i \<and> js_includes body (link_marker i)"
proof -
  from assms obtain k caps rest where f: "search marker_pattern body = Some (k, caps, rest)"
      "i = capture_group caps 0"
    by (auto simp: marker_id_def split: option.splits)
  from search_Some [OF f(1)] have k: "k \<le> length body"
      "match_here marker_pattern (drop k body) = Some (caps, rest)"
    by simp_all
  from match_here_marker_Some [OF k(2)] obtain j where j: "caps = [j]" "j \<noteq> []"
      "list_all digit j" "drop k body = link_marker j @ rest"
    by blast
  have "body = take k body @ link_marker j @ rest"
    using j(4) by (metis append_take_drop_id)
  then have "sublist (link_marker j) body"
    by (metis sublist_appendI)
  with j f(2) show ?thesis
    by (simp add: capture_group_def js_includes_def)
qed

lemma marker_id_None:
  "marker_id body = None \<longleftrightarrow>
     \<not> (\<exists>i. i \<noteq> [] \<and> list_all digit i \<and> js_includes body (link_marker i))"
proof
  assume "marker_id body = None"
  then have none: "\<forall>k \<le> length body. match_here marker_pattern (drop k body) = None"
    by (auto simp: marker_id_def search_None split: option.splits)
  show "\<not> (\<exists>i. i \<noteq> [] \<and> list_all digit i \<and> js_includes body (link_marker i))"
  proof
    assume "\<exists>i. i \<noteq> [] \<and> list_all digit i \<and> js_includes body (link_marker i)"
    then obtain i ps ss where i: "i \<noteq> []" "list_all digit i" "body = ps @ link_marker i @ ss"
      by (auto simp: js_includes_def sublist_def)
    then have "drop (length ps) body = link_marker i @ ss" "length ps \<le> length body"
      by simp_all
    with none link_marker_matches [OF i(1,2), of ss] show False
      by (metis option.distinct(1))
  qed
next
  assume "\<not> (\<exists>i. i \<noteq> [] \<and> list_all digit i \<and> js_includes body (link_marker i))"
  with marker_id_Some [of body] show "marker_id body = None"
    by (cases "marker_id body") auto
qed


lemma listDiscordThreads_ok:
  "faults w (Fetch_channel (FORUM_CHANNEL_ID cfg)) = None \<Longrightarrow>
   faults w (Fetch_threads (FORUM_CHANNEL_ID cfg)) = None \<Longrightarrow>
   fst (listDiscordThreads cfg w) = Inr (dc_threads w)"
  by (simp add: listDiscordThreads_def run_defs)

lemma marker_id_dangling: "marker_id (d_body dangling_discussion) = Some (js ''77'')"
  by (simp add: marker_id_def dangling_discussion_def marker_pattern_def lit_def match_here_def
        js_def is_char_def digit_def capture_group_def)

lemma listing_linked_world:
  "fst (listGithubDiscussions linked_world) = Inr [example_discussion\<lparr>d_category_name := None\<rparr>]"
  by (simp add: listGithubDiscussions_def run_defs linked_world_def)

lemma other_thread_not_named:
  "\<not> js_includes (d_body example_discussion) (link_marker (t_id other_thread))"
  by (simp add: js_includes_def example_discussion_def link_marker_def other_thread_def js_def
        sublist_code)

section \<open>Creating the counterpart discussion\<close>

text \<open>What the pushes of the catch-up step leave as it is.\<close>

lemma stable_frame_syncMessages:
  "stable (\<lambda>w. gh_discussions w = X \<and> faults w = F \<and> gh_no_data w = N
              \<and> discussionCache w = C \<and> REPO_CATEGORY_ID w = R \<and> prefix T (trace w))
     (syncMessages cfg thread discussion)"
  unfolding syncMessages_def listDiscordMessages_def fetch_messages_def listGithubComments_def
    pushDiscordMessage_def pushGithubComment_def thread_send_def Let_def
  by (intro stable_intros) (simp_all add: post_message_def)

lemma listGithubDiscussions_state:
  assumes "listGithubDiscussions w = (Inr listing, w1)"
  shows "discussionCache w1 = Some listing \<and> faults w1 = faults w \<and> next_id w1 = next_id w
    \<and> gh_discussions w1 = gh_discussions w \<and> gh_comments w1 = gh_comments w
    \<and> gh_repository_id w1 = gh_repository_id w \<and> dc_messages w1 = dc_messages w
    \<and> gh_no_data w1 = gh_no_data w \<and> REPO_CATEGORY_ID w1 = REPO_CATEGORY_ID w
    \<and> (\<exists>q. trace w1 = trace w @ q \<and> filter is_write q = [])"
  using assms
  by (auto simp: listGithubDiscussions_def run_defs split: option.splits if_splits)


lemma syncThreadOnGitHub_creates:
  assumes nf: "faults w = Map.empty" and live: "\<not> DRY_RUN cfg"
    and lookup: "fst (findThreadOnGitHub thread w) = Inr None"
    and repo: "gh_repository_id w = Some repositoryId"
    and seed: "rev (take 50 (dc_messages w (t_id thread))) = seed # later"
    and body: "body = makeGithubComment
        (msg_content seed @ newline @ newline @ link_marker (t_id thread))
        (msg_author_username seed) (message_url thread (msg_id seed))"
    and after: "w' = snd (syncThreadOnGitHub cfg thread w)"
  shows "gh_discussions w' = gh_discussions w @ [new_discussion cfg (t_name thread) body w]"
    and "fst (findThreadOnGitHub thread w') = Inr None"
    and "faults w' = Map.empty" and "gh_no_data w' = gh_no_data w"
    and "REPO_CATEGORY_ID w' = REPO_CATEGORY_ID w"
    and "filter (\<lambda>e. is_write e \<and> \<not> is_push e) (events_of (syncThreadOnGitHub cfg thread) w)
      = [Create_discussion (REPO_CATEGORY_ID w) (t_name thread) body repositoryId]"
proof -
  obtain r w1 where l: "listGithubDiscussions w = (r, w1)"
    by (cases "listGithubDiscussions w")
  with lookup obtain listing where r: "r = Inr listing"
      and none: "find (\<lambda>it. js_includes (d_body it) (link_marker (t_id thread))) listing = None"
    by (cases r) (auto simp: findThreadOnGitHub_def await_def ret_def)
  from listGithubDiscussions_state [OF l [unfolded r]] obtain q where w1:
      "discussionCache w1 = Some listing" "faults w1 = faults w" "next_id w1 = next_id w"
      "gh_discussions w1 = gh_discussions w" "gh_comments w1 = gh_comments w"
      "gh_repository_id w1 = gh_repository_id w" "dc_messages w1 = dc_messages w"
      "gh_no_data w1 = gh_no_data w" "REPO_CATEGORY_ID w1 = REPO_CATEGORY_ID w"
      "trace w1 = trace w @ q" "filter is_write q = []"
    by blast
  let ?d = "new_discussion cfg (t_name thread) body w"
  let ?returned = "\<lparr>d_id = d_id ?d, d_number = d_number ?d, d_title = [], d_body = [],
      d_author_login = [], d_category_name = None\<rparr>"
  let ?pre = "[Log Info (js ''Creating discussion on GitHub''),
      Fetch_messages (t_id thread),
      Log Info (js ''[Github] Creating discussion on GitHub repository '' @ CATEGORY_NAME cfg
        @ js '': '' @ t_name thread),
      Query_repository_id,
      Create_discussion (REPO_CATEGORY_ID w) (t_name thread) body repositoryId]"
  obtain w6 where run: "syncThreadOnGitHub cfg thread w = syncMessages cfg thread ?returned w6"
    and w6: "gh_discussions w6 = gh_discussions w @ [?d]" "faults w6 = Map.empty"
      "gh_no_data w6 = gh_no_data w" "discussionCache w6 = Some listing"
      "REPO_CATEGORY_ID w6 = REPO_CATEGORY_ID w" "trace w6 = trace w @ q @ ?pre"
  proof
    let ?w6 = "(emit (Create_discussion (REPO_CATEGORY_ID w) (t_name thread) body repositoryId)
        (emit Query_repository_id
          (emit (Log Info (js ''[Github] Creating discussion on GitHub repository ''
                   @ CATEGORY_NAME cfg @ js '': '' @ t_name thread))
            (emit (Fetch_messages (t_id thread))
              (emit (Log Info (js ''Creating discussion on GitHub'')) w1)))))
        \<lparr>gh_discussions := gh_discussions w @ [?d], next_id := Suc (next_id w)\<rparr>"
    show "syncThreadOnGitHub cfg thread w = syncMessages cfg thread ?returned ?w6"
      using nf live none seed repo w1
      by (simp add: syncThreadOnGitHub_def findThreadOnGitHub_def l r fetch_messages_def
            createDiscussion_def getRepositoryId_def run_defs Let_def body new_discussion_def)
    show "gh_discussions ?w6 = gh_discussions w @ [?d]" "faults ?w6 = Map.empty"
      "gh_no_data ?w6 = gh_no_data w" "discussionCache ?w6 = Some listing"
      "REPO_CATEGORY_ID ?w6 = REPO_CATEGORY_ID w" "trace ?w6 = trace w @ q @ ?pre"
      using nf w1 by simp_all
  qed
  have w': "w' = snd (syncMessages cfg thread ?returned w6)"
    by (simp add: after run)
  from stable_frame_syncMessages [of "gh_discussions w6" "faults w6" "gh_no_data w6"
      "discussionCache w6" "REPO_CATEGORY_ID w6" "trace w6" cfg thread ?returned]
  have frame: "gh_discussions w' = gh_discussions w6" "faults w' = faults w6"
      "gh_no_data w' = gh_no_data w6" "discussionCache w' = discussionCache w6"
      "REPO_CATEGORY_ID w' = REPO_CATEGORY_ID w6" "prefix (trace w6) (trace w')"
    by (simp_all add: stable_def w')
  show "gh_discussions w' = gh_discussions w @ [?d]"
    by (simp add: frame w6)
  show "faults w' = Map.empty" "gh_no_data w' = gh_no_data w"
    "REPO_CATEGORY_ID w' = REPO_CATEGORY_ID w"
    by (simp_all add: frame w6)
  show "fst (findThreadOnGitHub thread w') = Inr None"
    using none by (simp add: findThreadOnGitHub_def listGithubDiscussions_def await_def ret_def
        frame w6)
  from frame(6) obtain evs where evs: "trace w' = trace w6 @ evs"
    by (auto simp: prefix_def)
  then have "writes_of (syncMessages cfg thread ?returned) w6 = filter is_write evs"
    by (simp add: writes_of_def events_of_def w')
  with syncMessages_run [OF w6(2) live refl refl, of thread ?returned]
  have "filter (\<lambda>e. \<not> is_push e) (filter is_write evs) = []"
    by (simp add: filter_empty_conv)
  then have "filter (\<lambda>e. is_write e \<and> \<not> is_push e) evs = []"
    by simp
  moreover have "events_of (syncThreadOnGitHub cfg thread) w = q @ ?pre @ evs"
    by (simp add: events_of_def after [symmetric] evs w6)
  moreover have "filter (\<lambda>e. is_write e \<and> \<not> is_push e) q = []"
    using w1(11) by (simp add: filter_empty_conv)
  ultimately show "filter (\<lambda>e. is_write e \<and> \<not> is_push e)
      (events_of (syncThreadOnGitHub cfg thread) w)
      = [Create_discussion (REPO_CATEGORY_ID w) (t_name thread) body repositoryId]"
    by simp
qed


lemma find_append_last:
  "\<forall>x \<in> set xs. \<not> P x \<Longrightarrow> P y \<Longrightarrow> find P (xs @ [y]) = Some y"
  by (induction xs) simp_all

lemma marker_in_created_body:
  "js_includes
     (makeGithubComment (content @ newline @ newline @ link_marker threadId) author url)
     (link_marker threadId)"
proof -
  have "makeGithubComment (content @ newline @ newline @ link_marker threadId) author url =
      (speech_balloon_github @ js '' **'' @ author @ js ''** on [Discord]('' @ url
         @ js '') wrote:'' @ newline @ newline @ content @ newline @ newline)
      @ link_marker threadId"
    by (simp add: makeGithubComment_def)
  then show ?thesis
    unfolding js_includes_def by (metis sublist_append_leftI)
qed

lemma lookup_after_restart:
  assumes nf: "faults w' = Map.empty" and data: "\<not> gh_no_data w'"
    and listing: "gh_discussions w' = old @ [d]"
    and old: "\<forall>x \<in> set old. \<not> js_includes (d_body x) (link_marker (t_id thread))"
    and short: "length old < 100"
    and d: "js_includes (d_body d) (link_marker (t_id thread))"
  shows "fst (findThreadOnGitHub thread (restart w')) = Inr (Some (d\<lparr>d_category_name := None\<rparr>))"
proof -
  let ?strip = "\<lambda>d. d\<lparr>d_category_name := None\<rparr>"
  have "find (\<lambda>it. js_includes (d_body it) (link_marker (t_id thread)))
      (map ?strip old @ [?strip d]) = Some (?strip d)"
    using old d by (intro find_append_last) auto
  then show ?thesis
    using nf data short
    by (simp add: findThreadOnGitHub_def listGithubDiscussions_def restart_def run_defs listing)
qed

lemma unlinked_world_facts:
  "faults unlinked_world = Map.empty" "\<not> DRY_RUN example_config" "\<not> gh_no_data unlinked_world"
  "fst (findThreadOnGitHub example_thread unlinked_world) = Inr None"
  "gh_discussions unlinked_world = []"
  "gh_repository_id unlinked_world = Some (js ''R_1'')"
  "rev (take 50 (dc_messages unlinked_world (t_id example_thread))) = example_seed # []"
  "REPO_CATEGORY_ID unlinked_world = Some (js ''CAT'')" "next_id unlinked_world = 1000"
  by (simp_all add: unlinked_world_def linked_world_def example_config_def example_thread_def
        findThreadOnGitHub_def listGithubDiscussions_def run_defs)

section \<open>The markdown image pattern\<close>

lemma rmatch_Lazy_skip:
  assumes "\<And>g c cs. c \<in> set alt \<Longrightarrow> rmatch r g (c # cs) = None"
    and "\<forall>c \<in> set alt. P c"
  shows "rmatch (Lazy P # r) g (alt @ t) = rmatch (Lazy P # r) (fold capture alt g) t"
  using assms
proof (induction alt arbitrary: g)
  case Nil
  then show ?case by simp
next
  case (Cons a alt)
  then show ?case
    by simp
qed

lemma rmatch_Lazy_here:
  "rmatch r g t = Some x \<Longrightarrow> rmatch (Lazy P # r) g t = Some x"
  by (cases t) simp_all

lemma rmatch_Opt_skip:
  "a \<noteq> of_char c \<Longrightarrow> rmatch (Opt (is_char c) # r) g (a # t) = rmatch r g (a # t)"
  by (simp add: is_char_def)

lemma rmatch_Opt_take:
  "rmatch r (capture (of_char c) g) t = Some x \<Longrightarrow>
   rmatch (Opt (is_char c) # r) g (of_char c # t) = Some x"
  by (simp add: is_char_def)

lemma match_markdown_image:
  assumes alt: "\<forall>c \<in> set alt. dot c \<and> c \<noteq> of_char CHR '']''"
    and scheme: "scheme = js ''http://'' \<or> scheme = js ''https://''"
    and u: "u \<noteq> []" "\<forall>c \<in> set u. \<not> white_space c \<and> c \<noteq> of_char CHR '')''"
  shows "match_here markdown_image (js ''!['' @ alt @ js '']('' @ scheme @ u @ js '')'' @ post)
    = Some ([alt, scheme @ u], post)"
proof -
  let ?cls = "\<lambda>c. \<not> white_space c \<and> \<not> is_char CHR '')'' c"
  let ?tail = "Plus ?cls # Close # lit '')''"
  let ?r = "Close # lit '']('' @ Open # lit ''http'' @ Opt (is_char CHR ''s'') # lit ''://''
      @ ?tail"
  have no_close: "rmatch (Close # lit '')'') g (c # cs) = None" if "?cls c" for g c cs
    using that by (simp add: lit_Cons)
  have tw: "takeWhile ?cls (u @ js '')'' @ post) = u"
    using u(2) by (simp add: takeWhile_append2 js_Cons is_char_def)
  have dw: "dropWhile ?cls (u @ js '')'' @ post) = js '')'' @ post"
    using u(2) by (simp add: dropWhile_append2 js_Cons is_char_def)
  have tail: "rmatch ?tail (caps, Some b) (u @ js '')'' @ post) = Some (caps @ [b @ u], post)"
    for caps b
  proof -
    obtain c cs where ucs: "u = c # cs"
      using u(1) by (cases u) auto
    have c: "?cls c"
      using u(2) ucs by (simp add: is_char_def)
    have "rmatch ?tail (caps, Some b) (u @ js '')'' @ post) =
        rmatch (Star ?cls # Close # lit '')'') (caps, Some (b @ [c])) (cs @ js '')'' @ post)"
      using c by (simp add: ucs)
    also have "\<dots> = rmatch (Close # lit '')'')
        (fold capture (takeWhile ?cls (cs @ js '')'' @ post)) (caps, Some (b @ [c])))
        (dropWhile ?cls (cs @ js '')'' @ post))"
      by (rule rmatch_Star_then [OF no_close])
    also have "takeWhile ?cls (cs @ js '')'' @ post) = cs"
      using tw c by (simp add: ucs)
    also have "dropWhile ?cls (cs @ js '')'' @ post) = js '')'' @ post"
      using dw c by (simp add: ucs)
    finally show ?thesis
      by (simp add: rmatch_lit_end ucs)
  qed
  have url: "rmatch (Open # lit ''http'' @ Opt (is_char CHR ''s'') # lit ''://'' @ ?tail)
      (caps, None) (scheme @ u @ js '')'' @ post) = Some (caps @ [scheme @ u], post)" for caps
  proof -
    let ?rest = "u @ js '')'' @ post"
    have colon: "rmatch (lit ''://'' @ ?tail) (caps, Some b) (js ''://'' @ ?rest)
        = Some (caps @ [b @ js ''://'' @ u], post)" for b
      by (simp add: rmatch_lit tail)
    from scheme show ?thesis
    proof
      assume s: "scheme = js ''http://''"
      have split: "js ''http://'' = js ''http'' @ js ''://''"
        by (simp add: js_def)
      have first: "js ''://'' @ ?rest = of_char CHR '':'' # js ''//'' @ ?rest"
        by (simp add: js_def)
      have "rmatch (Opt (is_char CHR ''s'') # lit ''://'' @ ?tail) (caps, Some (js ''http''))
          (of_char CHR '':'' # js ''//'' @ ?rest)
          = rmatch (lit ''://'' @ ?tail) (caps, Some (js ''http''))
              (of_char CHR '':'' # js ''//'' @ ?rest)"
        by (rule rmatch_Opt_skip) simp
      also have "\<dots> = rmatch (lit ''://'' @ ?tail) (caps, Some (js ''http''))
          (js ''://'' @ ?rest)"
        by (simp only: first)
      also have "\<dots> = Some (caps @ [js ''http'' @ js ''://'' @ u], post)"
        by (rule colon)
      finally have "rmatch (Opt (is_char CHR ''s'') # lit ''://'' @ ?tail)
          (caps, Some (js ''http'')) (js ''://'' @ ?rest)
          = Some (caps @ [js ''http'' @ js ''://'' @ u], post)"
        by (simp only: first)
      then show ?thesis
        by (simp add: s split rmatch_lit)
    next
      assume s: "scheme = js ''https://''"
      have split: "js ''https://'' = js ''http'' @ of_char CHR ''s'' # js ''://''"
        by (simp add: js_def)
      have "rmatch (Opt (is_char CHR ''s'') # lit ''://'' @ ?tail) (caps, Some (js ''http''))
          (of_char CHR ''s'' # js ''://'' @ ?rest)
          = Some (caps @ [(js ''http'' @ [of_char CHR ''s'']) @ js ''://'' @ u], post)"
        by (rule rmatch_Opt_take) (simp add: colon)
      then show ?thesis
        by (simp add: s split rmatch_lit)
    qed
  qed
  have r: "rmatch ?r (caps, Some b) (js '']('' @ scheme @ u @ js '')'' @ post)
      = Some (caps @ [b, scheme @ u], post)" for caps b
    using url [of "caps @ [b]"] by (simp add: rmatch_lit)
  have no_r: "rmatch ?r g (c # cs) = None" if "c \<in> set alt" for g c cs
    using that alt by (auto simp: lit_Cons is_char_def)
  have "rmatch (Lazy dot # ?r) ([], Some []) (alt @ js '']('' @ scheme @ u @ js '')'' @ post)
      = rmatch (Lazy dot # ?r) ([], Some alt) (js '']('' @ scheme @ u @ js '')'' @ post)"
    using alt by (subst rmatch_Lazy_skip [OF no_r]) auto
  also have "\<dots> = Some ([alt, scheme @ u], post)"
    using r [of "[]" alt] by (intro rmatch_Lazy_here) simp
  finally show ?thesis
    by (simp add: match_here_def markdown_image_def rmatch_lit)
qed


lemma replace_g_skip:
  assumes "\<And>k. k < length pre \<Longrightarrow> match_here re (drop k pre @ s) = None"
  shows "replace_g re f (pre @ s) = pre @ replace_g re f s"
  using assms
proof (induction pre)
  case Nil
  then show ?case by simp
next
  case (Cons a pre)
  have here: "match_here re (a # pre @ s) = None"
    using Cons.prems [of 0] by simp
  have rest: "match_here re (drop k pre @ s) = None" if "k < length pre" for k
    using Cons.prems [of "Suc k"] that by simp
  from Cons.IH [OF rest] here show ?case
    by simp
qed

lemma markdown_image_starts:
  "match_here markdown_image inp \<noteq> None \<Longrightarrow> prefix (js ''!['') inp"
  by (auto simp: match_here_def markdown_image_def rmatch_lit split: if_splits)

lemma no_image_before:
  assumes "\<not> js_includes pre (js ''!['')" and "k < length pre"
  shows "match_here markdown_image (drop k pre @ js ''!['' @ t) = None"
proof (rule ccontr)
  assume "match_here markdown_image (drop k pre @ js ''!['' @ t) \<noteq> None"
  then have p: "prefix (js ''!['') (drop k pre @ js ''!['' @ t)"
    by (rule markdown_image_starts)
  obtain c cs where d: "drop k pre = c # cs"
    using assms(2) by (cases "drop k pre") auto
  show False
  proof (cases cs)
    case Nil
    with p d show ?thesis
      by (simp add: js_def)
  next
    case (Cons b bs)
    with p d have "prefix (js ''!['') (drop k pre)"
      by (simp add: js_def)
    then have "sublist (js ''!['') pre"
      by (meson prefix_imp_sublist sublist_drop sublist_order.order_trans)
    with assms(1) show ?thesis
      by (simp add: js_includes_def)
  qed
qed

lemma processedBody_image:
  assumes pre: "\<not> js_includes pre (js ''!['')"
    and alt: "\<forall>c \<in> set alt. dot c \<and> c \<noteq> of_char CHR '']''"
    and scheme: "scheme = js ''http://'' \<or> scheme = js ''https://''"
    and u: "u \<noteq> []" "\<forall>c \<in> set u. \<not> white_space c \<and> c \<noteq> of_char CHR '')''"
  shows "processedBody (pre @ js ''!['' @ alt @ js '']('' @ scheme @ u @ js '')'' @ post)
    = pre @ scheme @ u @ processedBody post"
proof -
  let ?image = "js ''!['' @ alt @ js '']('' @ scheme @ u @ js '')''"
  let ?f = "\<lambda>m caps. capture_group caps 1"
  have m: "match_here markdown_image (?image @ post) = Some ([alt, scheme @ u], post)"
    using match_markdown_image [OF alt scheme u] by simp
  obtain c cs where cs: "?image @ post = c # cs"
    by (cases "?image @ post") (auto simp: js_def)
  have "length post < length (?image @ post)"
    by simp
  then have "replace_g markdown_image ?f (?image @ post)
      = (scheme @ u) @ replace_g markdown_image ?f post"
    using m unfolding cs by (simp add: capture_group_def)
  moreover have "replace_g markdown_image ?f (pre @ ?image @ post)
      = pre @ replace_g markdown_image ?f (?image @ post)"
    using no_image_before [OF pre] by (intro replace_g_skip) simp
  ultimately show ?thesis
    by (simp add: processedBody_def)
qed

lemma processedBody_plain: "processedBody (js '' now'') = js '' now''"
  by (simp add: processedBody_def match_here_def markdown_image_def lit_def js_def is_char_def)

lemma processGitHubAttachments_plain:
  "processGitHubAttachments (js ''see http://x/y.png now'') = js ''see http://x/y.png now''"
  by (simp add: processGitHubAttachments_def attachment_loop.simps match_here_def
        img_attachment_def img_any_def attachment_url_def lit_def js_def is_char_def dot_def
        quote_def)


lemma example_image:
  "js ''see ![shot](http://x/y.png) now'' =
     js ''see '' @ js ''!['' @ js ''shot'' @ js '']('' @ js ''http://'' @ js ''x/y.png''
     @ js '')'' @ js '' now''"
  by (simp add: js_def)

lemma example_image_parts:
  "\<not> js_includes (js ''see '') (js ''!['')"
  "\<forall>c \<in> set (js ''shot''). dot c \<and> c \<noteq> of_char CHR '']''"
  "js ''x/y.png'' \<noteq> []"
  "\<forall>c \<in> set (js ''x/y.png''). \<not> white_space c \<and> c \<noteq> of_char CHR '')''"
  by (simp_all add: js_includes_def js_def sublist_code dot_def white_space_def)

section \<open>The catch-up a later message starts\<close>

text \<open>
  A message of a person without the attribution marker, in a thread of the forum channel
  that has its discussion, makes \<open>messageCreate\<close> run the catch-up step. The catch-up
  step pushes every message of the thread past the number of comments of the discussion,
  whatever its text is.
\<close>

lemma later_trigger_pushes_message:
  assumes nf: "faults w = Map.empty" and live: "\<not> DRY_RUN cfg"
    and ch: "msg_channel trigger = Thread thread"
    and forum: "t_parentId thread = Some (FORUM_CHANNEL_ID cfg)"
    and person: "\<not> msg_author_bot trigger"
    and plain: "\<not> js_includes (msg_content trigger) (speech_balloon @ js '' **'')"
    and linked: "fst (findThreadOnGitHub thread w) = Inr (Some discussion)"
    and msgs: "rev (take 50 (dc_messages w (t_id thread))) = seed # older @ message # newer"
    and lag: "length (gh_comments w (d_number discussion)) \<le> length older"
  shows "Add_discussion_comment (d_id discussion)
           (makeGithubComment (msg_content message) (msg_author_username message)
              (message_url thread (msg_id message)))
         \<in> set (writes_of (messageCreate cfg trigger) w)"
proof -
  obtain r w1 where l: "listGithubDiscussions w = (r, w1)"
    by (cases "listGithubDiscussions w")
  with linked obtain listing where r: "r = Inr listing"
      and found: "find (\<lambda>it. js_includes (d_body it) (link_marker (t_id thread))) listing
        = Some discussion"
    by (cases r) (auto simp: findThreadOnGitHub_def await_def ret_def)
  from listGithubDiscussions_state [OF l [unfolded r]] obtain q where w1:
      "faults w1 = faults w" "gh_comments w1 = gh_comments w" "dc_messages w1 = dc_messages w"
      "trace w1 = trace w @ q"
    by blast
  define tm where
    "tm = drop 1 (rev (map (threadMessage cfg) (take 50 (dc_messages w1 (t_id thread)))))"
  define dm where "dm = gh_comments w1 (d_number discussion)"
  let ?push = "\<lambda>m. Add_discussion_comment (d_id discussion)
      (makeGithubComment (m_message m) (m_user m) (message_url thread (m_id m)))"
  have tm: "tm = map (threadMessage cfg) older @ threadMessage cfg message
      # map (threadMessage cfg) newer"
    using msgs by (simp add: tm_def w1 rev_map [symmetric])
  have nf1: "faults w1 = Map.empty"
    using nf w1 by simp
  note run = syncMessages_run [OF nf1 live tm_def dm_def]
  have len: "length dm \<le> length older"
    using lag w1 by (simp add: dm_def)
  then have "\<not> length tm < length dm"
    by (simp add: tm)
  with run have writes: "writes_of (syncMessages cfg thread discussion) w1
      = map ?push (drop (length dm) tm)"
    by simp
  have "drop (length dm) tm = drop (length dm) (map (threadMessage cfg) older)
      @ threadMessage cfg message # map (threadMessage cfg) newer"
    using len by (simp add: tm)
  then have "?push (threadMessage cfg message)
      \<in> set (writes_of (syncMessages cfg thread discussion) w1)"
    unfolding writes by simp
  then have mem: "Add_discussion_comment (d_id discussion)
           (makeGithubComment (msg_content message) (msg_author_username message)
              (message_url thread (msg_id message)))
      \<in> set (filter is_write
          (drop (length (trace w1)) (trace (snd (syncMessages cfg thread discussion w1)))))"
    by (simp add: threadMessage_def writes_of_def events_of_def)
  have sync: "syncThreadOnGitHub cfg thread w = syncMessages cfg thread discussion w1"
    by (simp add: syncThreadOnGitHub_def findThreadOnGitHub_def await_def ret_def l r found)
  have ok: "fst (syncMessages cfg thread discussion w1) = Inr ()"
    using run by simp
  have mc: "snd (messageCreate cfg trigger w) = snd (syncMessages cfg thread discussion w1)"
    using ok
    by (cases "syncMessages cfg thread discussion w1")
      (simp add: messageCreate_def ch forum person plain catch_def sync)
  have eq: "drop (length (trace w1)) (trace (snd (syncMessages cfg thread discussion w1)))
      = drop (length q) (drop (length (trace w))
          (trace (snd (syncMessages cfg thread discussion w1))))"
    by (simp add: w1 add.commute)
  have "set (drop (length (trace w1)) (trace (snd (syncMessages cfg thread discussion w1))))
      \<subseteq> set (drop (length (trace w)) (trace (snd (syncMessages cfg thread discussion w1))))"
    unfolding eq by (rule set_drop_subset)
  with mem show ?thesis
    by (auto simp: writes_of_def events_of_def mc)
qed

text \<open>The messages and states of the examples.\<close>

lemma quoting_includes:
  "js_includes (msg_content quoting_message) (speech_balloon @ js '' **'')"
  using sublist_appendI [of "speech_balloon @ js '' **''" "js ''the bot writes ''"
        "js ''name** first''"]
  by (simp add: js_includes_def quoting_message_def)

lemma plain_not_includes:
  "\<not> js_includes (msg_content plain_message) (speech_balloon @ js '' **'')"
  by (simp add: js_includes_def plain_message_def speech_balloon_def js_def sublist_code)

lemma ignored_run:
  "messageCreate example_config quoting_message quoted_world =
       (Inr (), emit (Log Info (js ''message ignored'')) quoted_world)"
  using quoting_includes
  by (simp add: messageCreate_def catch_def logger_def quoting_message_def example_thread_def
      example_config_def)

lemma marker_of_example:
  "js_includes (d_body example_discussion) (link_marker (t_id example_thread))"
  by (simp add: js_includes_def example_discussion_def link_marker_def example_thread_def js_def
        sublist_code)

section \<open>The catch-up step\<close>

text \<open>
  Claim C1. With dry-run off and every collaborator call answered, \<open>syncMessages\<close> over
  the two fetched lists (the thread's messages oldest first without the oldest one, and
  the discussion's comments) returns normally and issues no mutating call when the lists
  are equally long; otherwise its mutating calls are exactly one per message of the
  longer list from index \<open>length shorter\<close> on, in that order, sent to the shorter side:
  \<open>thread.send\<close> when the thread is behind, \<open>addDiscussionComment\<close> when the discussion is.
  The single-file version does the same with its own renderers.
\<close>

theorem syncMessages_catch_up:
  assumes "\<not> DRY_RUN cfg" and "faults w = Map.empty"
    and "fst (listDiscordMessages cfg thread w) = Inr threadMessages"
    and "fst (listGithubComments discussion w) = Inr discussionMessages"
  shows "fst (syncMessages cfg thread discussion w) = Inr ()
    \<and> writes_of (syncMessages cfg thread discussion) w =
        (if length threadMessages = length discussionMessages then []
         else if length threadMessages < length discussionMessages
         then map (\<lambda>comment. Thread_send (t_id thread)
                    (makeDiscordMessage cfg (c_author_login comment) (d_number discussion)
                       (c_body comment)))
                (drop (length threadMessages) discussionMessages)
         else map (\<lambda>message. Add_discussion_comment (d_id discussion)
                    (makeGithubComment (m_message message) (m_user message)
                       (message_url thread (m_id message))))
                (drop (length discussionMessages) threadMessages))
    \<and> fst (syncMessages_legacy cfg thread discussion w) = Inr ()
    \<and> writes_of (syncMessages_legacy cfg thread discussion) w =
        (if length threadMessages = length discussionMessages then []
         else if length threadMessages < length discussionMessages
         then map (\<lambda>comment. Thread_send (t_id thread)
                    (makeDiscordMessage_legacy cfg (c_author_login comment) (d_number discussion)
                       (c_body comment)))
                (drop (length threadMessages) discussionMessages)
         else map (\<lambda>message. Add_discussion_comment (d_id discussion)
                    (makeGithubComment_legacy (m_message message) (m_user message)
                       (message_url thread (m_id message))))
                (drop (length discussionMessages) threadMessages))"
proof -
  have tm: "threadMessages =
      drop 1 (rev (map (threadMessage cfg) (take 50 (dc_messages w (t_id thread)))))"
    using assms(3) by (simp add: listDiscordMessages_ok [OF assms(2)])
  from listGithubComments_ok [OF assms(2), of discussion] assms(4)
  have dm: "discussionMessages = gh_comments w (d_number discussion)"
    by auto
  from syncMessages_run [OF assms(2,1) tm dm] syncMessages_legacy_run [OF assms(2,1) tm dm]
  show ?thesis
    by auto
qed

text \<open>
  The witness: the thread holds only its seed, the discussion two comments, and both
  comments are sent to the thread, in order.
\<close>

theorem syncMessages_catch_up_witness:
  "\<not> DRY_RUN example_config \<and> faults linked_world = Map.empty
   \<and> fst (listDiscordMessages example_config example_thread linked_world) = Inr []
   \<and> fst (listGithubComments example_discussion linked_world) = Inr [comment_one, comment_two]
   \<and> writes_of (syncMessages example_config example_thread example_discussion) linked_world =
       [Thread_send (js ''42'') (makeDiscordMessage example_config (js ''alice'') 1 (js ''first'')),
        Thread_send (js ''42'') (makeDiscordMessage example_config (js ''bob'') 1 (js ''second''))]"
proof -
  have nf: "faults linked_world = Map.empty"
    by (simp add: linked_world_def)
  have live: "\<not> DRY_RUN example_config"
    by (simp add: example_config_def)
  have tm: "fst (listDiscordMessages example_config example_thread linked_world) = Inr []"
    by (simp add: listDiscordMessages_ok [OF nf]) (simp add: linked_world_def example_thread_def)
  from listGithubComments_ok [OF nf, of example_discussion]
  have dm: "fst (listGithubComments example_discussion linked_world)
      = Inr [comment_one, comment_two]"
    by (auto simp: linked_world_def example_discussion_def)
  from syncMessages_catch_up [OF live nf tm dm] nf live tm dm show ?thesis
    by (simp add: example_thread_def example_discussion_def comment_one_def comment_two_def)
qed

section \<open>The length clamp of makeDiscordMessage\<close>

text \<open>
  The header is never cut, whatever the arguments are: the result of \<open>makeDiscordMessage\<close>
  starts with the whole attribution header, in both versions of the program.
\<close>

lemma makeDiscordMessage_keeps_header:
  "prefix (messagePrefix cfg author number) (makeDiscordMessage cfg author number body)
   \<and> prefix (messagePrefix_legacy cfg author number)
        (makeDiscordMessage_legacy cfg author number body)"
  unfolding makeDiscordMessage_def makeDiscordMessage_legacy_def Let_def
  by simp



text \<open>
  The bound rests on the length of the handle: the function itself never looks at the
  length of the header, so a handle of 2000 code units, which no GitHub login has, would
  give a longer string.
\<close>

lemma makeDiscordMessage_header_above_budget:
  "length (makeDiscordMessage example_config (replicate 2000 97) 7 []) > 2000"
  by (simp add: makeDiscordMessage_def Let_def length_messagePrefix processedBody_Nil
        substring_0 example_config_def length_continued)

section \<open>Creating the counterpart discussion of a thread\<close>

text \<open>
  What \<open>syncThreadOnGitHub\<close> does for a thread the lookup does not find, when every
  collaborator call is answered and dry-run is off: its only mutating call that is not a
  push of a message is one \<open>createDiscussion\<close> mutation, whose body, the rendering of the
  seed message, contains \<open><!-- Discord:id -->\<close> for the id of the thread; and the lookup for
  the thread in the state it leaves still answers \<open>undefined\<close>.
\<close>

lemma syncThreadOnGitHub_creation_and_lookup:
  assumes "faults w = Map.empty" and "\<not> DRY_RUN cfg"
    and "fst (findThreadOnGitHub thread w) = Inr None"
    and "gh_repository_id w = Some repositoryId"
    and "rev (take 50 (dc_messages w (t_id thread))) = seed # later"
  shows "filter (\<lambda>e. is_write e \<and> \<not> is_push e) (events_of (syncThreadOnGitHub cfg thread) w)
      = [Create_discussion (REPO_CATEGORY_ID w) (t_name thread)
           (makeGithubComment (msg_content seed @ newline @ newline @ link_marker (t_id thread))
              (msg_author_username seed) (message_url thread (msg_id seed)))
           repositoryId]
    \<and> js_includes
        (makeGithubComment (msg_content seed @ newline @ newline @ link_marker (t_id thread))
           (msg_author_username seed) (message_url thread (msg_id seed)))
        (link_marker (t_id thread))
    \<and> fst (findThreadOnGitHub thread (snd (syncThreadOnGitHub cfg thread w))) = Inr None"
proof -
  note c = syncThreadOnGitHub_creates [OF assms refl refl]
  from c(2,6) marker_in_created_body show ?thesis
    by simp
qed

text \<open>
  Claim C3, evaluated on the code. The forum holds the new thread 42, titled
  \<open>Bug: crash on startup\<close>, with its seed message \<open>Steps to reproduce...\<close>; GitHub holds no
  discussion, and the lookup for the thread answers \<open>undefined\<close>. \<open>syncThreadOnGitHub\<close>
  creates the discussion \<open>D_1000\<close>, whose body contains the marker of the thread. The
  lookup for the thread in the state after the creation answers \<open>undefined\<close> all the same:
  it reads the listing that was cached before the creation. So the next
  \<open>syncThreadOnGitHub\<close> of that thread creates a second discussion, \<open>D_1001\<close>, with the same
  title, body and marker. The claim says that the lookup resolves to the new discussion.
\<close>

theorem lookup_after_creation_misses_new_discussion:
  "fst (findThreadOnGitHub example_thread unlinked_world) = Inr None
   \<and> gh_discussions (snd (syncThreadOnGitHub example_config example_thread unlinked_world)) =
       [\<lparr>d_id = js ''D_1000'', d_number = 1000, d_title = js ''Bug: crash on startup'',
         d_body = makeGithubComment
            (js ''Steps to reproduce...'' @ newline @ newline @ link_marker (js ''42''))
            (js ''carol'') (message_url example_thread (js ''100'')),
         d_author_login = js ''sync-bot'', d_category_name = Some (js ''General'')\<rparr>]
   \<and> js_includes
        (makeGithubComment
            (js ''Steps to reproduce...'' @ newline @ newline @ link_marker (js ''42''))
            (js ''carol'') (message_url example_thread (js ''100'')))
        (link_marker (t_id example_thread))
   \<and> fst (findThreadOnGitHub example_thread
        (snd (syncThreadOnGitHub example_config example_thread unlinked_world))) = Inr None
   \<and> gh_discussions (snd (syncThreadOnGitHub example_config example_thread
        (snd (syncThreadOnGitHub example_config example_thread unlinked_world)))) =
       [\<lparr>d_id = js ''D_1000'', d_number = 1000, d_title = js ''Bug: crash on startup'',
         d_body = makeGithubComment
            (js ''Steps to reproduce...'' @ newline @ newline @ link_marker (js ''42''))
            (js ''carol'') (message_url example_thread (js ''100'')),
         d_author_login = js ''sync-bot'', d_category_name = Some (js ''General'')\<rparr>,
        \<lparr>d_id = js ''D_1001'', d_number = 1001, d_title = js ''Bug: crash on startup'',
         d_body = makeGithubComment
            (js ''Steps to reproduce...'' @ newline @ newline @ link_marker (js ''42''))
            (js ''carol'') (message_url example_thread (js ''100'')),
         d_author_login = js ''sync-bot'', d_category_name = Some (js ''General'')\<rparr>]"
proof -
  have marked: "js_includes
        (makeGithubComment
            (js ''Steps to reproduce...'' @ newline @ newline @ link_marker (js ''42''))
            (js ''carol'') (message_url example_thread (js ''100'')))
        (link_marker (t_id example_thread))"
    by (simp add: example_thread_def marker_in_created_body)
  have runs: "fst (findThreadOnGitHub example_thread unlinked_world) = Inr None
   \<and> gh_discussions (snd (syncThreadOnGitHub example_config example_thread unlinked_world)) =
       [\<lparr>d_id = js ''D_1000'', d_number = 1000, d_title = js ''Bug: crash on startup'',
         d_body = makeGithubComment
            (js ''Steps to reproduce...'' @ newline @ newline @ link_marker (js ''42''))
            (js ''carol'') (message_url example_thread (js ''100'')),
         d_author_login = js ''sync-bot'', d_category_name = Some (js ''General'')\<rparr>]
   \<and> fst (findThreadOnGitHub example_thread
        (snd (syncThreadOnGitHub example_config example_thread unlinked_world))) = Inr None
   \<and> gh_discussions (snd (syncThreadOnGitHub example_config example_thread
        (snd (syncThreadOnGitHub example_config example_thread unlinked_world)))) =
       [\<lparr>d_id = js ''D_1000'', d_number = 1000, d_title = js ''Bug: crash on startup'',
         d_body = makeGithubComment
            (js ''Steps to reproduce...'' @ newline @ newline @ link_marker (js ''42''))
            (js ''carol'') (message_url example_thread (js ''100'')),
         d_author_login = js ''sync-bot'', d_category_name = Some (js ''General'')\<rparr>,
        \<lparr>d_id = js ''D_1001'', d_number = 1001, d_title = js ''Bug: crash on startup'',
         d_body = makeGithubComment
            (js ''Steps to reproduce...'' @ newline @ newline @ link_marker (js ''42''))
            (js ''carol'') (message_url example_thread (js ''100'')),
         d_author_login = js ''sync-bot'', d_category_name = Some (js ''General'')\<rparr>]"
    by (simp add:
      syncThreadOnGitHub_def findThreadOnGitHub_def listGithubDiscussions_def
      createDiscussion_def getRepositoryId_def syncMessages_def listDiscordMessages_def
      listGithubComments_def fetch_messages_def query_comments_def new_discussion_def
      comment_pages.simps for_idx.simps run_defs Let_def emit_def numberToString.simps
      unlinked_world_def linked_world_def example_config_def example_thread_def example_seed_def
      js_def)
  from runs marked show ?thesis
    by blast
qed

section \<open>The threadCreate trigger\<close>

text \<open>
  Claim C4, as the code has it. The \<open>threadCreate\<close> handler returns at once for every
  thread, also one whose parent is the configured forum channel: it issues no call, logs
  nothing, and so never reaches \<open>syncThreadOnGitHub\<close>. A thread of the forum channel is
  handed to \<open>syncThreadOnGitHub\<close> by the \<open>messageCreate\<close> handler, for a message that is
  not a bot's and does not contain the attribution marker.
\<close>

theorem threadCreate_is_disabled:
  "threadCreate cfg thread w = (Inr (), w)
   \<and> events_of (threadCreate cfg thread) w = []
   \<and> (msg_channel message = Thread thread \<and> t_parentId thread = Some (FORUM_CHANNEL_ID cfg)
        \<and> \<not> msg_author_bot message
        \<and> \<not> js_includes (msg_content message) (speech_balloon @ js '' **'') \<longrightarrow>
       messageCreate cfg message =
         catch (syncThreadOnGitHub cfg thread)
           (\<lambda>e. await (logger Failure (js ''Discord messageCreate error: '' @ e))
              (\<lambda>u. catch (message_reply cfg message (js ''Failed to sync to GitHub: '' @ e))
                 (\<lambda>replyError.
                    logger Failure (js ''Failed to send error reply: Error: '' @ replyError)))))"
  by (simp add: threadCreate_def ret_def events_of_def messageCreate_def)

text \<open>The witness: a plain message of a person in a thread of the forum channel.\<close>

theorem threadCreate_is_disabled_witness:
  "msg_channel plain_message = Thread example_thread
   \<and> t_parentId example_thread = Some (FORUM_CHANNEL_ID example_config)
   \<and> \<not> msg_author_bot plain_message
   \<and> \<not> js_includes (msg_content plain_message) (speech_balloon @ js '' **'')
   \<and> threadCreate example_config example_thread unlinked_world = (Inr (), unlinked_world)
   \<and> messageCreate example_config plain_message =
         catch (syncThreadOnGitHub example_config example_thread)
           (\<lambda>e. await (logger Failure (js ''Discord messageCreate error: '' @ e))
              (\<lambda>u. catch (message_reply example_config plain_message
                             (js ''Failed to sync to GitHub: '' @ e))
                 (\<lambda>replyError.
                    logger Failure (js ''Failed to send error reply: Error: '' @ replyError))))"
proof -
  have no: "\<not> js_includes (msg_content plain_message) (speech_balloon @ js '' **'')"
    by (simp add: js_includes_def plain_message_def speech_balloon_def js_def sublist_code)
  have rest: "msg_channel plain_message = Thread example_thread
      \<and> t_parentId example_thread = Some (FORUM_CHANNEL_ID example_config)
      \<and> \<not> msg_author_bot plain_message"
    by (simp add: plain_message_def example_thread_def example_config_def)
  from threadCreate_is_disabled [of example_config example_thread unlinked_world plain_message]
    no rest
  show ?thesis
    by simp
qed

text \<open>
  The claim as stated fails: for a thread of the forum channel that has its seed message,
  the handler leaves the state as it is, while a call of \<open>syncThreadOnGitHub\<close> in that
  state would start by asking GitHub for the discussions.
\<close>

theorem threadCreate_counterexample:
  "t_parentId example_thread = Some (FORUM_CHANNEL_ID example_config)
   \<and> dc_messages unlinked_world (t_id example_thread) = [example_seed]
   \<and> events_of (threadCreate example_config example_thread) unlinked_world = []
   \<and> take 1 (events_of (syncThreadOnGitHub example_config example_thread) unlinked_world)
       = [Query_discussions (Some (js ''CAT''))]"
  by (simp add: threadCreate_def events_of_def
      syncThreadOnGitHub_def findThreadOnGitHub_def listGithubDiscussions_def
      createDiscussion_def getRepositoryId_def syncMessages_def listDiscordMessages_def
      listGithubComments_def fetch_messages_def query_comments_def
      comment_pages.simps for_idx.simps run_defs Let_def
      unlinked_world_def linked_world_def example_config_def example_thread_def example_seed_def)

section \<open>The catch-up step in dry-run mode\<close>




section \<open>Images on the way from GitHub to Discord\<close>

text \<open>
  Claim C6, as the code has it. Take a body with a markdown image \<open>![alt](url)\<close> in it:
  no \<open>![\<close> in the text before it, an alt text without line terminator and without \<open>]\<close>,
  a url that is \<open>http://\<close> or \<open>https://\<close> followed by at least one code unit, none of them
  white space or \<open>)\<close>. The processed body is the text before, the bare url, and the
  processed rest: the url takes the place of the image and no line break is put before
  or after it. When the result fits the budget, \<open>makeDiscordMessage\<close> is the attribution
  header followed by that.
\<close>

theorem markdown_image_becomes_bare_url_in_place:
  assumes "\<not> js_includes pre (js ''!['')"
    and "\<forall>c \<in> set alt. dot c \<and> c \<noteq> of_char CHR '']''"
    and "scheme = js ''http://'' \<or> scheme = js ''https://''"
    and "u \<noteq> []" and "\<forall>c \<in> set u. \<not> white_space c \<and> c \<noteq> of_char CHR '')''"
    and "length (messagePrefix cfg author number)
         + length (pre @ scheme @ u @ processedBody post) \<le> 1900"
  shows "processedBody (pre @ js ''!['' @ alt @ js '']('' @ scheme @ u @ js '')'' @ post)
      = pre @ scheme @ u @ processedBody post
    \<and> makeDiscordMessage cfg author number
        (pre @ js ''!['' @ alt @ js '']('' @ scheme @ u @ js '')'' @ post)
      = messagePrefix cfg author number @ pre @ scheme @ u @ processedBody post"
proof -
  note p = processedBody_image [OF assms(1-5), of post]
  have "\<not> int (length (pre @ scheme @ u @ processedBody post))
      > 1900 - int (length (messagePrefix cfg author number))"
    using assms(6) by linarith
  then have "makeDiscordMessage cfg author number
        (pre @ js ''!['' @ alt @ js '']('' @ scheme @ u @ js '')'' @ post)
      = messagePrefix cfg author number @ pre @ scheme @ u @ processedBody post"
    unfolding makeDiscordMessage_def Let_def p by simp
  with p show ?thesis
    by simp
qed

text \<open>The witness: an image in the middle of a line.\<close>

theorem markdown_image_becomes_bare_url_in_place_witness:
  "\<not> js_includes (js ''see '') (js ''!['')
   \<and> list_all (\<lambda>c. dot c \<and> c \<noteq> of_char CHR '']'') (js ''shot'')
   \<and> js ''x/y.png'' \<noteq> []
   \<and> list_all (\<lambda>c. \<not> white_space c \<and> c \<noteq> of_char CHR '')'') (js ''x/y.png'')
   \<and> length (messagePrefix example_config (js ''alice'') 7)
       + length (js ''see '' @ js ''http://'' @ js ''x/y.png'' @ processedBody (js '' now''))
       \<le> 1900
   \<and> processedBody (js ''see ![shot](http://x/y.png) now'') = js ''see http://x/y.png now''"
proof -
  have fits: "length (messagePrefix example_config (js ''alice'') 7)
      + length (js ''see '' @ js ''http://'' @ js ''x/y.png'' @ processedBody (js '' now''))
      \<le> 1900"
    by (simp add: length_messagePrefix processedBody_plain example_config_def
          numberToString.simps)
  have glue: "js ''see '' @ js ''http://'' @ js ''x/y.png'' @ js '' now''
      = js ''see http://x/y.png now''"
    by (simp add: js_def)
  from markdown_image_becomes_bare_url_in_place [OF example_image_parts(1,2) disjI1 [OF refl]
      example_image_parts(3,4) fits]
    example_image_parts fits
  show ?thesis
    by (simp add: example_image processedBody_plain glue list_all_iff)
qed

text \<open>
  The claim as stated fails for that body, in \<open>discord.ts\<close> and in the single-file version:
  the url stays on the line of the text around it.
\<close>

theorem markdown_image_not_on_own_line_counterexample:
  "makeDiscordMessage example_config (js ''alice'') 7 (js ''see ![shot](http://x/y.png) now'')
     = messagePrefix example_config (js ''alice'') 7 @ js ''see http://x/y.png now''
   \<and> makeDiscordMessage_legacy example_config (js ''alice'') 7
       (js ''see ![shot](http://x/y.png) now'')
     = messagePrefix_legacy example_config (js ''alice'') 7 @ js ''see http://x/y.png now''"
proof -
  have glue: "js ''see '' @ js ''http://'' @ js ''x/y.png'' @ js '' now''
      = js ''see http://x/y.png now''"
    by (simp add: js_def)
  have p: "processedBody (js ''see ![shot](http://x/y.png) now'') = js ''see http://x/y.png now''"
    using processedBody_image [OF example_image_parts(1,2) disjI1 [OF refl]
        example_image_parts(3,4), of "js '' now''"]
    by (simp add: example_image processedBody_plain glue)
  show ?thesis
    by (simp add: makeDiscordMessage_def makeDiscordMessage_legacy_def Let_def p
          processGitHubAttachments_plain length_messagePrefix length_messagePrefix_legacy
          example_config_def numberToString.simps)
qed

text \<open>
  \<open>makeDiscordMessage\<close> of \<open>discord.ts\<close> leaves an HTML image tag as it is, while the
  single-file version puts its source on a line of its own.
\<close>

lemma html_image_tag_is_kept:
  "processedBody (js ''<img src='' @ [34] @ js ''http://x/y.png'' @ [34] @ js '' />'')
     = js ''<img src='' @ [34] @ js ''http://x/y.png'' @ [34] @ js '' />''
   \<and> processGitHubAttachments
       (js ''<img src='' @ [34] @ js ''http://x/y.png'' @ [34] @ js '' />'')
     = newline @ js ''http://x/y.png'' @ newline"
  by (simp add: processedBody_def processGitHubAttachments_def attachment_loop.simps
        match_here_def markdown_image_def img_attachment_def img_any_def attachment_url_def
        lit_def js_def is_char_def dot_def quote_def capture_group_def newline_def)

section \<open>Images on the way from Discord to GitHub\<close>

text \<open>
  Claim C7 at an input where the code breaks it. The message is a markdown image with a
  title, \<open>![d](url "t")\<close>, whose url is a GitHub user attachment.
  \<open>convertAttachmentsToMarkdown\<close> looks for the text \<open>](url)\<close> to see whether the url is in
  image syntax already; here the url is followed by a space, so the test fails and the url
  inside the image is wrapped in \<open>![GitHub Image](\<dots>)\<close> once more. The same happens to
  an image \<open>![d](url.png)\<close>, where the pattern \<open>[a-zA-Z0-9-]+\<close> stops before the extension.
\<close>

theorem convertAttachmentsToMarkdown_wraps_titled_image_again:
  "convertAttachmentsToMarkdown (js ''![d](https://github.com/user-attachments/assets/a1.png)'')
   = js ''![d](![GitHub Image](https://github.com/user-attachments/assets/a1).png)''
   \<and> convertAttachmentsToMarkdown
     (js ''![d](https://github.com/user-attachments/assets/a1 '' @ [34] @ js ''t'' @ [34]
      @ js '')'')
   = js ''![d](![GitHub Image](https://github.com/user-attachments/assets/a1) '' @ [34]
     @ js ''t'' @ [34] @ js '')''
   \<and> makeGithubComment_legacy
       (js ''![d](https://github.com/user-attachments/assets/a1 '' @ [34] @ js ''t'' @ [34]
        @ js '')'') (js ''carol'') (js ''u'')
   = speech_balloon_legacy @ js '' **'' @ js ''carol'' @ js ''** on [Discord]('' @ js ''u''
     @ js '') wrote:'' @ newline @ newline
     @ js ''![d](![GitHub Image](https://github.com/user-attachments/assets/a1) '' @ [34]
     @ js ''t'' @ [34] @ js '')''"
proof -
  have c: "convertAttachmentsToMarkdown
     (js ''![d](https://github.com/user-attachments/assets/a1 '' @ [34] @ js ''t'' @ [34]
      @ js '')'')
   = js ''![d](![GitHub Image](https://github.com/user-attachments/assets/a1) '' @ [34]
     @ js ''t'' @ [34] @ js '')''"
    by (simp add: convertAttachmentsToMarkdown_def Let_def match_here_def img_alt_i_def
          img_any_i_def attachment_url_i_def lit_i_def lit_def js_def is_char_def upper_def
          dot_def quote_def alnum_dash_def js_includes_def sublist_code capture_group_def)
  have e: "convertAttachmentsToMarkdown
      (js ''![d](https://github.com/user-attachments/assets/a1.png)'')
    = js ''![d](![GitHub Image](https://github.com/user-attachments/assets/a1).png)''"
    by (simp add: convertAttachmentsToMarkdown_def Let_def match_here_def img_alt_i_def
          img_any_i_def attachment_url_i_def lit_i_def lit_def js_def is_char_def upper_def
          dot_def quote_def alnum_dash_def js_includes_def sublist_code capture_group_def)
  show ?thesis
    unfolding makeGithubComment_legacy_def Let_def c e by simp
qed

text \<open>
  An image without a title is left alone, and \<open>makeGithubComment\<close> of \<open>github.ts\<close> calls no
  transform at all: the message follows the header unchanged.
\<close>

lemma convertAttachmentsToMarkdown_keeps_plain_image:
  "convertAttachmentsToMarkdown (js ''![d](https://github.com/user-attachments/assets/a1)'')
   = js ''![d](https://github.com/user-attachments/assets/a1)''"
  by (simp add: convertAttachmentsToMarkdown_def Let_def match_here_def img_alt_i_def
        img_any_i_def attachment_url_i_def lit_i_def lit_def js_def is_char_def upper_def
        dot_def quote_def alnum_dash_def js_includes_def sublist_code capture_group_def)

lemma makeGithubComment_copies_message:
  "makeGithubComment message author url =
     speech_balloon_github @ js '' **'' @ author @ js ''** on [Discord]('' @ url
     @ js '') wrote:'' @ newline @ newline @ message"
  by (simp add: makeGithubComment_def)

section \<open>The resolvers\<close>

text \<open>
  Claim C8. When the threads of the forum are fetched and none of them has the id that
  the marker pattern reads from the body of the discussion, \<open>findDiscussionOnDiscord\<close>
  returns \<open>undefined\<close>: this is the case when the pattern finds nothing (the marker is
  missing or malformed) and when it finds the id of a thread that is not among the fetched
  ones (the marker is dangling). When the listing is there and no listed body contains the
  marker of the thread, \<open>findThreadOnGitHub\<close> returns \<open>undefined\<close>. Neither throws. The
  pattern finds nothing exactly when the body contains no marker with a non-empty id of
  decimal digits.
\<close>

theorem resolvers_report_unlinked:
  assumes "faults w (Fetch_channel (FORUM_CHANNEL_ID cfg)) = None"
    and "faults w (Fetch_threads (FORUM_CHANNEL_ID cfg)) = None"
    and "\<forall>t \<in> set (dc_threads w). Some (t_id t) \<noteq> marker_id (d_body discussion)"
    and "fst (listGithubDiscussions w) = Inr listing"
    and "\<forall>d \<in> set listing. \<not> js_includes (d_body d) (link_marker (t_id thread))"
  shows "fst (findDiscussionOnDiscord cfg discussion w) = Inr None
    \<and> fst (findThreadOnGitHub thread w) = Inr None
    \<and> (marker_id body = None \<longleftrightarrow>
         \<not> (\<exists>i. i \<noteq> [] \<and> list_all digit i \<and> js_includes body (link_marker i)))"
proof -
  have none: "find (\<lambda>it. Some (t_id it) = marker_id (d_body discussion)) (dc_threads w) = None"
    using assms(3) by (simp add: find_None_iff)
  have a: "fst (findDiscussionOnDiscord cfg discussion w) = Inr None"
    using assms(1,2) none
    by (simp add: findDiscussionOnDiscord_def listDiscordThreads_def run_defs Let_def)
  have none': "find (\<lambda>it. js_includes (d_body it) (link_marker (t_id thread))) listing = None"
    using assms(5) by (simp add: find_None_iff)
  obtain w1 where "listGithubDiscussions w = (Inr listing, w1)"
    using assms(4) by (cases "listGithubDiscussions w") auto
  then have b: "fst (findThreadOnGitHub thread w) = Inr None"
    using none' by (simp add: findThreadOnGitHub_def await_def ret_def)
  from a b marker_id_None show ?thesis
    by blast
qed

text \<open>
  The witness: a discussion whose marker names thread 77 while the forum has thread 42
  only, a thread whose marker is in no listed body, and a marker with letters for an id.
\<close>

theorem resolvers_report_unlinked_witness:
  "faults linked_world (Fetch_channel (FORUM_CHANNEL_ID example_config)) = None
   \<and> faults linked_world (Fetch_threads (FORUM_CHANNEL_ID example_config)) = None
   \<and> marker_id (d_body dangling_discussion) = Some (js ''77'')
   \<and> dc_threads linked_world = [example_thread] \<and> t_id example_thread = js ''42''
   \<and> fst (listGithubDiscussions linked_world)
       = Inr [example_discussion\<lparr>d_category_name := None\<rparr>]
   \<and> \<not> js_includes (d_body example_discussion) (link_marker (t_id other_thread))
   \<and> fst (findDiscussionOnDiscord example_config dangling_discussion linked_world) = Inr None
   \<and> fst (findThreadOnGitHub other_thread linked_world) = Inr None
   \<and> marker_id (js ''<!-- Discord:abc -->'') = None"
proof -
  have f: "faults linked_world (Fetch_channel (FORUM_CHANNEL_ID example_config)) = None"
      "faults linked_world (Fetch_threads (FORUM_CHANNEL_ID example_config)) = None"
    by (simp_all add: linked_world_def)
  have t: "dc_threads linked_world = [example_thread]" "t_id example_thread = js ''42''"
    by (simp_all add: linked_world_def example_thread_def)
  have ne: "js ''42'' \<noteq> js ''77''"
    by (simp add: js_def)
  have nt: "\<forall>t \<in> set (dc_threads linked_world).
      Some (t_id t) \<noteq> marker_id (d_body dangling_discussion)"
    using ne by (simp add: t marker_id_dangling)
  have nd: "\<forall>d \<in> set [example_discussion\<lparr>d_category_name := None\<rparr>].
      \<not> js_includes (d_body d) (link_marker (t_id other_thread))"
    using other_thread_not_named by simp
  have malformed: "marker_id (js ''<!-- Discord:abc -->'') = None"
    by (simp add: marker_id_def marker_pattern_def lit_def match_here_def
          js_def is_char_def digit_def)
  from resolvers_report_unlinked [OF f nt listing_linked_world nd] f t marker_id_dangling
    listing_linked_world other_thread_not_named malformed
  show ?thesis
    by simp
qed

text \<open>
  \<open>findThreadOnGitHub\<close> of the single-file version, which \<open>index.ts\<close> replaces, reads the
  title and the bare id: a discussion that only mentions the id is taken for the
  counterpart, where the marker lookup answers \<open>undefined\<close>.
\<close>

lemma findThreadOnGitHub_legacy_reads_bare_id:
  "fst (findThreadOnGitHub_legacy example_thread mentioning_world) = Inr (Some mentioning_discussion)
   \<and> fst (findThreadOnGitHub example_thread mentioning_world) = Inr None"
  by (simp add: findThreadOnGitHub_legacy_def findThreadOnGitHub_def listGithubDiscussions_def
        await_def ret_def mentioning_world_def mentioning_discussion_def example_thread_def
        js_includes_def link_marker_def js_def sublist_code)

section \<open>The discussion listing cache\<close>

text \<open>
  Claim C9. When a call of \<open>listGithubDiscussions\<close> has returned a listing, that listing is
  the cache, and after any sequence of operations of the program (the three triggers, the
  two synchronisation entry points, creating and updating a discussion) the next call
  returns the same listing and leaves the state as it is: it asks GitHub nothing. In
  particular the listing returned after \<open>createDiscussion\<close> is the old one.
\<close>

theorem discussion_cache_is_never_refreshed:
  assumes "listGithubDiscussions w0 = (Inr snapshot, w1)"
  shows "discussionCache w1 = Some snapshot
    \<and> listGithubDiscussions (perform_all cfg ops w1) = (Inr snapshot, perform_all cfg ops w1)
    \<and> fst (listGithubDiscussions (snd (createDiscussion cfg thread message w1))) = Inr snapshot"
proof -
  have c1: "discussionCache w1 = Some snapshot"
    using assms by (rule listGithubDiscussions_populates)
  have c2: "discussionCache (perform_all cfg ops w1) = Some snapshot"
    using c1 by (rule perform_all_keeps_cache)
  have c3: "discussionCache (snd (createDiscussion cfg thread message w1)) = Some snapshot"
    using c1 stable_cache_createDiscussion [of snapshot cfg thread message]
    by (simp add: stable_def)
  show ?thesis
    by (simp add: c1 listGithubDiscussions_cached [OF c2] listGithubDiscussions_cached [OF c3])
qed

text \<open>
  The witness: GitHub has no discussion when the listing is first read. After the
  creation GitHub holds one discussion, and the listing is still empty.
\<close>

theorem discussion_cache_is_never_refreshed_witness:
  "listGithubDiscussions unlinked_world =
     (Inr [], (emit (Query_discussions (Some (js ''CAT''))) unlinked_world)
                \<lparr>discussionCache := Some []\<rparr>)
   \<and> length (gh_discussions
        (snd (createDiscussion example_config example_thread example_seed
           ((emit (Query_discussions (Some (js ''CAT''))) unlinked_world)
              \<lparr>discussionCache := Some []\<rparr>)))) = 1
   \<and> fst (listGithubDiscussions
        (snd (createDiscussion example_config example_thread example_seed
           ((emit (Query_discussions (Some (js ''CAT''))) unlinked_world)
              \<lparr>discussionCache := Some []\<rparr>)))) = Inr []"
proof -
  let ?w1 = "(emit (Query_discussions (Some (js ''CAT''))) unlinked_world)
      \<lparr>discussionCache := Some []\<rparr>"
  have first: "listGithubDiscussions unlinked_world = (Inr [], ?w1)"
    by (simp add: listGithubDiscussions_def run_defs unlinked_world_def linked_world_def)
  have grown: "length (gh_discussions
      (snd (createDiscussion example_config example_thread example_seed ?w1))) = 1"
    by (simp add: createDiscussion_def getRepositoryId_def run_defs Let_def unlinked_world_def
          linked_world_def)
  from discussion_cache_is_never_refreshed [OF first, of example_config "[]" example_thread
      example_seed] first grown
  show ?thesis
    by simp
qed

section \<open>The messageCreate trigger\<close>

text \<open>
  Claim C10, as the code has it. For a message whose author is a bot, or whose content
  contains the five code units of the speech balloon, a space and two asterisks anywhere,
  the \<open>messageCreate\<close> handler writes one log line and returns: it issues no collaborator
  call and does not reach \<open>syncThreadOnGitHub\<close>. The test is \<open>includes\<close>, so the position of
  the marker in the text does not matter. The message is mirrored all the same, by
  position: when a later message of a person, without the marker, arrives in the thread
  (a thread of the forum channel whose discussion is found), every collaborator call is
  answered, dry-run is off, the earlier message is among the fetched messages of the
  thread after the seed message, and the discussion has no more comments than the thread
  has messages between the seed message and the earlier one, then the handler of the later
  message sends the earlier message to the discussion as a comment.
\<close>

theorem marked_message_skipped_by_trigger_mirrored_by_catch_up:
  assumes "msg_author_bot message
    \<or> js_includes (msg_content message) (speech_balloon @ js '' **'')"
  shows "messageCreate cfg message w =
    (Inr (),
     emit (Log Info
             (case msg_channel message of
                OtherChannel c \<Rightarrow> js ''message not in thread''
              | Thread thread \<Rightarrow>
                  if t_parentId thread \<noteq> Some (FORUM_CHANNEL_ID cfg)
                  then js ''thread not in forum channel''
                  else js ''message ignored''))
       w)
    \<and> (faults w' = Map.empty \<and> \<not> DRY_RUN cfg
        \<and> msg_channel trigger = Thread thread
        \<and> t_parentId thread = Some (FORUM_CHANNEL_ID cfg)
        \<and> \<not> msg_author_bot trigger
        \<and> \<not> js_includes (msg_content trigger) (speech_balloon @ js '' **'')
        \<and> fst (findThreadOnGitHub thread w') = Inr (Some discussion)
        \<and> rev (take 50 (dc_messages w' (t_id thread))) = seed # older @ message # newer
        \<and> length (gh_comments w' (d_number discussion)) \<le> length older
      \<longrightarrow> Add_discussion_comment (d_id discussion)
            (makeGithubComment (msg_content message) (msg_author_username message)
               (message_url thread (msg_id message)))
          \<in> set (writes_of (messageCreate cfg trigger) w'))"
proof (intro conjI impI)
  show "messageCreate cfg message w =
    (Inr (),
     emit (Log Info
             (case msg_channel message of
                OtherChannel c \<Rightarrow> js ''message not in thread''
              | Thread thread \<Rightarrow>
                  if t_parentId thread \<noteq> Some (FORUM_CHANNEL_ID cfg)
                  then js ''thread not in forum channel''
                  else js ''message ignored''))
       w)"
    using assms
    by (auto simp: messageCreate_def catch_def logger_def split: channel.splits)
next
  assume "faults w' = Map.empty \<and> \<not> DRY_RUN cfg
        \<and> msg_channel trigger = Thread thread
        \<and> t_parentId thread = Some (FORUM_CHANNEL_ID cfg)
        \<and> \<not> msg_author_bot trigger
        \<and> \<not> js_includes (msg_content trigger) (speech_balloon @ js '' **'')
        \<and> fst (findThreadOnGitHub thread w') = Inr (Some discussion)
        \<and> rev (take 50 (dc_messages w' (t_id thread))) = seed # older @ message # newer
        \<and> length (gh_comments w' (d_number discussion)) \<le> length older"
  then show "Add_discussion_comment (d_id discussion)
            (makeGithubComment (msg_content message) (msg_author_username message)
               (message_url thread (msg_id message)))
          \<in> set (writes_of (messageCreate cfg trigger) w')"
    by (intro later_trigger_pushes_message [where seed = seed and older = older
          and newer = newer]) simp_all
qed

text \<open>
  The witness: carol quotes the marker in the middle of a message in the thread of the
  examples, and the handler ignores it; she then writes a plain message, and its handler
  sends the quoting message to the discussion.
\<close>

theorem marked_message_skipped_by_trigger_mirrored_by_catch_up_witness:
  "\<not> msg_author_bot quoting_message
   \<and> js_includes (msg_content quoting_message) (speech_balloon @ js '' **'')
   \<and> \<not> prefix (speech_balloon @ js '' **'') (msg_content quoting_message)
   \<and> messageCreate example_config quoting_message quoted_world =
       (Inr (), emit (Log Info (js ''message ignored'')) quoted_world)
   \<and> faults answered_world = Map.empty \<and> \<not> DRY_RUN example_config
   \<and> msg_channel plain_message = Thread example_thread
   \<and> t_parentId example_thread = Some (FORUM_CHANNEL_ID example_config)
   \<and> \<not> msg_author_bot plain_message
   \<and> \<not> js_includes (msg_content plain_message) (speech_balloon @ js '' **'')
   \<and> fst (findThreadOnGitHub example_thread answered_world)
       = Inr (Some (example_discussion\<lparr>d_category_name := None\<rparr>))
   \<and> rev (take 50 (dc_messages answered_world (t_id example_thread)))
       = example_seed # [] @ quoting_message # [plain_message]
   \<and> length (gh_comments answered_world (d_number (example_discussion\<lparr>d_category_name := None\<rparr>)))
       \<le> length ([] :: Message list)
   \<and> Add_discussion_comment (d_id (example_discussion\<lparr>d_category_name := None\<rparr>))
        (makeGithubComment (msg_content quoting_message) (msg_author_username quoting_message)
           (message_url example_thread (msg_id quoting_message)))
      \<in> set (writes_of (messageCreate example_config plain_message) answered_world)"
proof -
  have np: "\<not> prefix (speech_balloon @ js '' **'') (msg_content quoting_message)"
    by (simp add: quoting_message_def speech_balloon_def js_def)
  have person: "\<not> msg_author_bot quoting_message"
    by (simp add: quoting_message_def)
  have state: "faults answered_world = Map.empty" "\<not> DRY_RUN example_config"
      "msg_channel plain_message = Thread example_thread"
      "t_parentId example_thread = Some (FORUM_CHANNEL_ID example_config)"
      "\<not> msg_author_bot plain_message"
      "rev (take 50 (dc_messages answered_world (t_id example_thread)))
         = example_seed # [] @ quoting_message # [plain_message]"
      "length (gh_comments answered_world (d_number (example_discussion\<lparr>d_category_name := None\<rparr>)))
         \<le> length ([] :: Message list)"
    unfolding answered_world_def ignored_run
    by (simp_all add: emit_def quoted_world_def linked_world_def example_config_def
          example_thread_def plain_message_def)
  have linked: "fst (findThreadOnGitHub example_thread answered_world)
       = Inr (Some (example_discussion\<lparr>d_category_name := None\<rparr>))"
    using marker_of_example
    unfolding answered_world_def ignored_run
    by (simp add: findThreadOnGitHub_def listGithubDiscussions_def run_defs emit_def
          quoted_world_def linked_world_def)
  note t = marked_message_skipped_by_trigger_mirrored_by_catch_up
    [OF disjI2 [OF quoting_includes], where cfg = example_config and w = quoted_world
      and w' = answered_world and trigger = plain_message and thread = example_thread
      and discussion = "example_discussion\<lparr>d_category_name := None\<rparr>"
      and seed = example_seed and older = "[]" and newer = "[plain_message]"]
  from t have ignored: "messageCreate example_config quoting_message quoted_world =
       (Inr (), emit (Log Info (js ''message ignored'')) quoted_world)"
    by (simp add: quoting_message_def example_thread_def example_config_def)
  from t state plain_not_includes linked
  have "Add_discussion_comment (d_id (example_discussion\<lparr>d_category_name := None\<rparr>))
        (makeGithubComment (msg_content quoting_message) (msg_author_username quoting_message)
           (message_url example_thread (msg_id quoting_message)))
      \<in> set (writes_of (messageCreate example_config plain_message) answered_world)"
    by blast
  with person quoting_includes np ignored state plain_not_includes linked show ?thesis
    by blast
qed

text \<open>
  The claim as stated fails there: the quoting message, which its own trigger ignored, is
  the first of the two comments that the trigger of the plain message adds to the
  discussion.
\<close>

theorem quoting_message_is_mirrored_counterexample:
  "\<not> msg_author_bot quoting_message
   \<and> js_includes (msg_content quoting_message) (speech_balloon @ js '' **'')
   \<and> messageCreate example_config quoting_message quoted_world =
       (Inr (), emit (Log Info (js ''message ignored'')) quoted_world)
   \<and> writes_of (messageCreate example_config plain_message) answered_world =
       [Add_discussion_comment (js ''D_1'')
          (makeGithubComment (msg_content quoting_message) (js ''carol'')
             (message_url example_thread (js ''101''))),
        Add_discussion_comment (js ''D_1'')
          (makeGithubComment (js ''any news?'') (js ''carol'')
             (message_url example_thread (js ''102'')))]"
proof -
  have later: "writes_of (messageCreate example_config plain_message) answered_world =
       [Add_discussion_comment (js ''D_1'')
          (makeGithubComment (msg_content quoting_message) (js ''carol'')
             (message_url example_thread (js ''101''))),
        Add_discussion_comment (js ''D_1'')
          (makeGithubComment (js ''any news?'') (js ''carol'')
             (message_url example_thread (js ''102'')))]"
    using plain_not_includes marker_of_example
    unfolding answered_world_def ignored_run
    by (simp add: writes_of_def events_of_def messageCreate_def
      syncThreadOnGitHub_def findThreadOnGitHub_def listGithubDiscussions_def
      syncMessages_def listDiscordMessages_def pushGithubComment_def threadMessage_def
      listGithubComments_def fetch_messages_def query_comments_def
      comment_pages.simps for_idx.simps run_defs Let_def emit_def
      quoted_world_def linked_world_def example_config_def example_thread_def example_seed_def
      plain_message_def quoting_message_def example_discussion_def)
  from later quoting_includes ignored_run show ?thesis
    by (simp add: quoting_message_def)
qed

end
